theory Spec2Isabelle
  imports Complex_Main "HOL-Library.Multiset"
begin

section \<open>Conventions of the embedding\<close>

text \<open>
  The development embeds the alignment and role-attribution engine
  (\<^verbatim>\<open>pipeline.py\<close>), the recording lifecycle (\<^verbatim>\<open>watcher/folder_watcher.py\<close>,
  \<^verbatim>\<open>api/server.py\<close>) and the role swap (\<^verbatim>\<open>api/query.py\<close>).

  \<^item> Python floats (time stamps, durations, probabilities, scores) are the real numbers:
    rounding is not modelled. Two sums of the same floats added in different orders are
    equal in the model and need not be in the code; no theorem states such an equality.
  \<^item> A Python \<^verbatim>\<open>dict\<close> keeps its keys in insertion order and the code depends on that
    order (\<^verbatim>\<open>sorted\<close> and \<^verbatim>\<open>max\<close> are stable), so a dict is an association list
    with distinct keys, newest key last.
  \<^item> An exception is a value: a function that can raise returns a sum, \<open>Inl\<close> the exception.
  \<^item> Every operation on the database runs to its end before the next one starts. In
    \<^verbatim>\<open>_process_file\<close> the database raises where a fault oracle says so, at any of its
    statements that reach the database.
\<close>

section \<open>Dictionaries in insertion order\<close>

text \<open>\<^verbatim>\<open>d.get(k, default)\<close>\<close>

definition dict_get :: "('k \<times> 'v) list \<Rightarrow> 'k \<Rightarrow> 'v \<Rightarrow> 'v" where
  "dict_get d k dflt = (case map_of d k of None \<Rightarrow> dflt | Some v \<Rightarrow> v)"

text \<open>\<^verbatim>\<open>d[k] = v\<close>: an existing key keeps its place, a new key goes last.\<close>

fun dict_set :: "('k \<times> 'v) list \<Rightarrow> 'k \<Rightarrow> 'v \<Rightarrow> ('k \<times> 'v) list" where
  "dict_set [] k v = [(k, v)]"
| "dict_set ((k', v') # d) k v =
     (if k' = k then (k, v) # d else (k', v') # dict_set d k v)"

text \<open>
  \<^verbatim>\<open>max(d, key=d.get)\<close>: the first key, in insertion order, whose value is maximal
  (a later key replaces the best one only when its value is strictly greater).
  Python raises on an empty dict; both callers test for emptiness first.
\<close>

fun max_from :: "'k \<times> real \<Rightarrow> ('k \<times> real) list \<Rightarrow> 'k \<times> real" where
  "max_from best [] = best"
| "max_from best (kv # d) = max_from (if snd kv > snd best then kv else best) d"

fun max_key :: "('k \<times> real) list \<Rightarrow> 'k option" where
  "max_key [] = None"
| "max_key (kv # d) = Some (fst (max_from kv d))"

section \<open>Segments\<close>

text \<open>\<^verbatim>\<open>SpeakerLabel = Literal["agent", "customer"]\<close>\<close>

datatype role = Agent | Customer

fun role_str :: "role \<Rightarrow> string" where
  "role_str Agent = ''agent''"
| "role_str Customer = ''customer''"

record diarization_segment =
  dseg_speaker :: string
  dseg_start :: real
  dseg_end :: real

record word_timestamp =
  w_word :: string
  w_start :: real
  w_end :: real
  w_probability :: real

record transcription_segment =
  tseg_text :: string
  tseg_start :: real
  tseg_end :: real
  tseg_words :: "word_timestamp list"
  tseg_avg_logprob :: real
  tseg_no_speech_prob :: real

record aligned_segment =
  al_speaker :: role
  al_text :: string
  al_start :: real
  al_end :: real
  al_confidence :: "real option"

section \<open>Overlap aligner\<close>

text \<open>\<^verbatim>\<open>_overlap\<close>\<close>

definition overlap :: "real \<Rightarrow> real \<Rightarrow> real \<Rightarrow> real \<Rightarrow> real" where
  "overlap a_start a_end b_start b_end = max 0 (min a_end b_end - max a_start b_start)"

text \<open>
  The inner loop shared by \<^verbatim>\<open>_align_segments\<close> and \<^verbatim>\<open>_label_speakers_smart\<close>: the
  overlap of one transcription segment with every diarization segment, accumulated per
  speaker tag; a tag enters the dict only with a positive overlap.
\<close>

definition add_overlap ::
  "transcription_segment \<Rightarrow> (string \<times> real) list \<Rightarrow> diarization_segment \<Rightarrow> (string \<times> real) list"
where
  "add_overlap tseg acc dseg =
     (let ov = overlap (tseg_start tseg) (tseg_end tseg) (dseg_start dseg) (dseg_end dseg)
      in if ov > 0
         then dict_set acc (dseg_speaker dseg) (dict_get acc (dseg_speaker dseg) 0 + ov)
         else acc)"

definition speaker_overlap ::
  "transcription_segment \<Rightarrow> diarization_segment list \<Rightarrow> (string \<times> real) list"
where
  "speaker_overlap tseg dsegs = foldl (add_overlap tseg) [] dsegs"

text \<open>\<^verbatim>\<open>_avg_word_confidence\<close>\<close>

definition avg_word_confidence :: "transcription_segment \<Rightarrow> real option" where
  "avg_word_confidence seg =
     (if tseg_words seg = [] then None
      else Some (sum_list (map w_probability (tseg_words seg)) / real (length (tseg_words seg))))"

text \<open>The label chosen for one transcription segment in the loop of \<^verbatim>\<open>_align_segments\<close>.\<close>

definition align_label ::
  "diarization_segment list \<Rightarrow> (string \<times> role) list \<Rightarrow> transcription_segment \<Rightarrow> role"
where
  "align_label dsegs speaker_map tseg =
     (case max_key (speaker_overlap tseg dsegs) of
        Some raw_speaker \<Rightarrow> dict_get speaker_map raw_speaker Customer
      | None \<Rightarrow> Agent)"

definition align_one ::
  "diarization_segment list \<Rightarrow> (string \<times> role) list \<Rightarrow> transcription_segment \<Rightarrow> aligned_segment"
where
  "align_one dsegs speaker_map tseg =
     \<lparr> al_speaker = align_label dsegs speaker_map tseg,
       al_text = tseg_text tseg,
       al_start = tseg_start tseg,
       al_end = tseg_end tseg,
       al_confidence = avg_word_confidence tseg \<rparr>"

text \<open>\<^verbatim>\<open>_align_segments\<close>: one aligned segment is appended per transcription segment.\<close>

fun align_segments ::
  "transcription_segment list \<Rightarrow> diarization_segment list \<Rightarrow> (string \<times> role) list
     \<Rightarrow> aligned_segment list"
where
  "align_segments [] dsegs speaker_map = []"
| "align_segments (tseg # tsegs) dsegs speaker_map =
     align_one dsegs speaker_map tseg # align_segments tsegs dsegs speaker_map"

section \<open>Python strings\<close>

text \<open>
  A Python \<^verbatim>\<open>str\<close> is a \<^typ>\<open>string\<close>, one \<^typ>\<open>char\<close> per character. The
  alphabet of the model is ASCII and the eighteen Polish letters with diacritics, which
  the phrase tables need; a Polish letter has the code that ISO 8859-2 gives it. Every
  other code above 127 is outside the alphabet: it is no word character, digit or space
  and has no other case.
\<close>

definition a_ogonek :: string where "a_ogonek = [CHR 0xB1]"
definition c_acute :: string where "c_acute = [CHR 0xE6]"
definition e_ogonek :: string where "e_ogonek = [CHR 0xEA]"
definition l_stroke :: string where "l_stroke = [CHR 0xB3]"
definition n_acute :: string where "n_acute = [CHR 0xF1]"
definition o_acute :: string where "o_acute = [CHR 0xF3]"
definition s_acute :: string where "s_acute = [CHR 0xB6]"
definition z_acute :: string where "z_acute = [CHR 0xBC]"
definition z_dot :: string where "z_dot = [CHR 0xBF]"

definition lower_chars :: string where
  "lower_chars = ''abcdefghijklmnopqrstuvwxyz'' @ a_ogonek @ c_acute @ e_ogonek @ l_stroke
     @ n_acute @ o_acute @ s_acute @ z_acute @ z_dot"

definition upper_chars :: string where
  "upper_chars = ''ABCDEFGHIJKLMNOPQRSTUVWXYZ'' @
     [CHR 0xA1, CHR 0xC6, CHR 0xCA, CHR 0xA3, CHR 0xD1, CHR 0xD3, CHR 0xA6, CHR 0xAC, CHR 0xAF]"

definition char_lower :: "char \<Rightarrow> char" where
  "char_lower c = (case map_of (zip upper_chars lower_chars) c of Some l \<Rightarrow> l | None \<Rightarrow> c)"

definition char_upper :: "char \<Rightarrow> char" where
  "char_upper c = (case map_of (zip lower_chars upper_chars) c of Some u \<Rightarrow> u | None \<Rightarrow> c)"

definition is_digit :: "char \<Rightarrow> bool" where
  "is_digit c = (c \<in> set ''0123456789'')"

definition is_word :: "char \<Rightarrow> bool" where
  "is_word c = (c \<in> set (upper_chars @ lower_chars @ ''0123456789_''))"

text \<open>Python's white space below 128: tab to carriage return, the four separators, space.\<close>

definition is_space :: "char \<Rightarrow> bool" where
  "is_space c = (c \<in> set [CHR 0x09, CHR 0x0A, CHR 0x0B, CHR 0x0C, CHR 0x0D,
                           CHR 0x1C, CHR 0x1D, CHR 0x1E, CHR 0x1F, CHR '' ''])"

text \<open>\<^verbatim>\<open>s.lower()\<close>, \<^verbatim>\<open>s.capitalize()\<close>, \<^verbatim>\<open>s.strip()\<close>, \<^verbatim>\<open>s.split()\<close>, \<^verbatim>\<open>sep.join(xs)\<close>\<close>

definition py_lower :: "string \<Rightarrow> string" where
  "py_lower s = map char_lower s"

fun py_capitalize :: "string \<Rightarrow> string" where
  "py_capitalize [] = []"
| "py_capitalize (c # cs) = char_upper c # map char_lower cs"

definition py_strip :: "string \<Rightarrow> string" where
  "py_strip s = rev (dropWhile is_space (rev (dropWhile is_space s)))"

fun split_ws :: "string \<Rightarrow> string \<Rightarrow> string list" where
  "split_ws cur [] = (if cur = [] then [] else [cur])"
| "split_ws cur (c # s) =
     (if is_space c then (if cur = [] then split_ws [] s else cur # split_ws [] s)
      else split_ws (cur @ [c]) s)"

definition py_split :: "string \<Rightarrow> string list" where
  "py_split s = split_ws [] s"

fun py_join :: "string \<Rightarrow> string list \<Rightarrow> string" where
  "py_join sep [] = []"
| "py_join sep [x] = x"
| "py_join sep (x # y # ys) = x @ sep @ py_join sep (y # ys)"

section \<open>Regular expressions of the phrase tables\<close>

text \<open>
  The patterns of \<^verbatim>\<open>_AGENT_PHRASES\<close> and \<^verbatim>\<open>_CUSTOMER_SHORT_RESPONSES\<close> are sequences of
  single-character atoms (a literal, \<^verbatim>\<open>\w\<close>, \<^verbatim>\<open>\d\<close>, \<^verbatim>\<open>\s\<close>, a set \<^verbatim>\<open>[.,!]\<close>), each
  taken once or under \<^verbatim>\<open>*\<close>, \<^verbatim>\<open>+\<close>, \<^verbatim>\<open>?\<close>, and the assertions \<^verbatim>\<open>^\<close>, \<^verbatim>\<open>$\<close>, \<^verbatim>\<open>\b\<close>.
  \<^verbatim>\<open>re.search\<close> is used for its truth value only, so greediness plays no part:
  \<open>match_here\<close> says whether some match of the pattern starts at the given place, where
  \<open>prev\<close> is the character before it (\<open>None\<close> at the start of the text).
\<close>

datatype atom = Ch char | AnyWord | AnyDigit | AnySpace | OneOf string

datatype item = One atom | Star atom | Plus atom | Opt atom | Bol | Eol | WordBoundary

type_synonym regex = "item list"

fun atom_matches :: "atom \<Rightarrow> char \<Rightarrow> bool" where
  "atom_matches (Ch x) c = (c = x)"
| "atom_matches AnyWord c = is_word c"
| "atom_matches AnyDigit c = is_digit c"
| "atom_matches AnySpace c = is_space c"
| "atom_matches (OneOf cs) c = (c \<in> set cs)"

definition at_word_boundary :: "char option \<Rightarrow> string \<Rightarrow> bool" where
  "at_word_boundary prev s =
     ((case prev of None \<Rightarrow> False | Some p \<Rightarrow> is_word p)
      \<noteq> (case s of [] \<Rightarrow> False | c # _ \<Rightarrow> is_word c))"

fun match_here :: "regex \<Rightarrow> char option \<Rightarrow> string \<Rightarrow> bool" where
  "match_here [] prev s = True"
| "match_here (Bol # r) prev s = (prev = None \<and> match_here r prev s)"
| "match_here (Eol # r) prev s = ((s = [] \<or> s = [CHR 0x0A]) \<and> match_here r prev s)"
| "match_here (WordBoundary # r) prev s = (at_word_boundary prev s \<and> match_here r prev s)"
| "match_here (One a # r) prev [] = False"
| "match_here (One a # r) prev (c # s) = (atom_matches a c \<and> match_here r (Some c) s)"
| "match_here (Opt a # r) prev [] = match_here r prev []"
| "match_here (Opt a # r) prev (c # s) =
     (match_here r prev (c # s) \<or> (atom_matches a c \<and> match_here r (Some c) s))"
| "match_here (Star a # r) prev [] = match_here r prev []"
| "match_here (Star a # r) prev (c # s) =
     (match_here r prev (c # s) \<or> (atom_matches a c \<and> match_here (Star a # r) (Some c) s))"
| "match_here (Plus a # r) prev [] = False"
| "match_here (Plus a # r) prev (c # s) =
     (atom_matches a c \<and> match_here (Star a # r) (Some c) s)"

fun search_from :: "regex \<Rightarrow> char option \<Rightarrow> string \<Rightarrow> bool" where
  "search_from p prev [] = match_here p prev []"
| "search_from p prev (c # s) = (match_here p prev (c # s) \<or> search_from p (Some c) s)"

text \<open>\<^verbatim>\<open>bool(re.search(p, s))\<close>\<close>

definition re_search :: "regex \<Rightarrow> string \<Rightarrow> bool" where
  "re_search p s = search_from p None s"

text \<open>A pattern without metacharacters.\<close>

definition lit :: "string \<Rightarrow> regex" where
  "lit s = map (\<lambda>c. One (Ch c)) s"

definition AGENT_PHRASES :: "regex list" where
  "AGENT_PHRASES =
   [lit (''dzie'' @ n_acute @ '' dobry''),
    lit (''dzwoni'' @ e_ogonek @ '' z''),
    lit (''dzwoni'' @ e_ogonek @ '' ze''),
    lit (''dzwoni'' @ e_ogonek @ '' w sprawie''),
    lit (''nazywam si'' @ e_ogonek),
    lit (''mam na imi'' @ e_ogonek),
    lit (''czy mog'' @ e_ogonek @ '' zaproponowa'' @ c_acute),
    lit (''mog'' @ e_ogonek @ '' zaproponowa'' @ c_acute),
    lit (''chcia'' @ l_stroke) @ [Star AnyWord] @ lit (''bym zaproponowa'' @ c_acute),
    lit ''w promocyjnej cenie'',
    lit ''w promocji'',
    lit ''promocja'',
    lit ''rabat'',
    lit ''gratis'',
    lit ''w cenie'',
    lit ''kuracja'',
    lit ''bestseller'',
    lit ''opakowanie'',
    lit (''opakowa'' @ n_acute),
    [Plus AnyDigit, Star AnySpace] @ lit (''z'' @ l_stroke),
    [Plus AnyDigit, Star AnySpace] @ lit (''z'' @ l_stroke @ ''otych''),
    lit ''kosztuje'',
    lit (''oszcz'' @ e_ogonek @ ''dno'' @ s_acute @ c_acute),
    lit ''za opakowanie'',
    lit ''za pobraniem'',
    lit (''p'' @ l_stroke @ ''atno'' @ s_acute @ c_acute),
    lit (''metoda p'' @ l_stroke @ ''atno'' @ s_acute @ ''ci''),
    lit ''dane dostawy'',
    lit ''adres dostawy'',
    lit (''numer zam'' @ o_acute @ ''wienia''),
    lit (''potwierdzam zam'' @ o_acute @ ''wienie''),
    lit (''w sprawie zam'' @ o_acute @ ''wienia''),
    lit (''wysy'' @ l_stroke @ ''am''),
    lit (''wysy'' @ l_stroke @ ''ka''),
    lit ''kurier'',
    lit ''paczka'',
    lit (''przesy'' @ l_stroke @ ''ka''),
    lit (''potrzebuj'' @ e_ogonek @ '' potwierdzenia''),
    lit (''musz'' @ e_ogonek @ '' potwierdzi'' @ c_acute),
    lit (''czy wszystko si'' @ e_ogonek @ '' zgadza''),
    lit (''czy wyra'' @ z_dot @ ''a pan'') @ [Star AnyWord] @ lit ('' zgod'' @ e_ogonek),
    lit (''czy wyra'' @ z_dot @ ''a pani zgod'' @ e_ogonek),
    lit (''prosz'' @ e_ogonek @ '' pan'') @ [One AnyWord],
    lit ''regulamin'',
    lit ''reklamacja'',
    lit ''gwarancja'',
    lit (''mi'' @ l_stroke @ ''ego dnia''),
    lit (''dzi'' @ e_ogonek @ ''kuj'' @ e_ogonek @ '' za rozmow'' @ e_ogonek),
    lit ''do widzenia'',
    lit (z_dot @ ''ycz'' @ e_ogonek @ '' mi'' @ l_stroke @ ''ego'')]"

definition CUSTOMER_SHORT_RESPONSES :: "regex list" where
  "CUSTOMER_SHORT_RESPONSES =
   [[Bol] @ lit ''tak'' @ [Opt (OneOf ''.,!''), Star AnySpace, Eol],
    [Bol] @ lit ''nie'' @ [Opt (OneOf ''.,!''), Star AnySpace, Eol],
    [Bol] @ lit ''no'' @ [Star AnySpace, Eol],
    [Bol] @ lit ''no tak'' @ [Star AnySpace, Eol],
    [Bol] @ lit ''no nie'' @ [Star AnySpace, Eol],
    [Bol] @ lit ''no dobrze'',
    [Bol] @ lit (''no niech b'' @ e_ogonek @ ''dzie''),
    [Bol] @ lit (''niech b'' @ e_ogonek @ ''dzie''),
    [Bol] @ lit (''dok'' @ l_stroke @ ''adnie''),
    [Bol] @ lit ''dobrze'',
    [Bol] @ lit ''ok'' @ [WordBoundary],
    [Bol] @ lit ''okej'',
    [Bol] @ lit ''trudno'',
    [Bol] @ lit ''halo'',
    [Bol] @ lit ''to znaczy'',
    [Bol] @ lit ''mhm'',
    [Bol] @ lit ''aha'',
    [Bol] @ lit ''uhm'',
    [Bol] @ lit (''no w'' @ l_stroke @ ''a'' @ s_acute @ ''nie''),
    [Bol] @ lit (''zgadza si'' @ e_ogonek),
    [Bol] @ lit ''jasne'',
    [Bol] @ lit ''rozumiem'',
    [Bol] @ lit ''a ile'',
    [Bol] @ lit ''no to'',
    [Bol] @ lit ''yyyy'']"

text \<open>
  \<^verbatim>\<open>_count_phrase_matches\<close> and \<^verbatim>\<open>_count_distinct_phrase_matches\<close>: the two functions
  have the same body, \<^verbatim>\<open>sum(1 for p in patterns if re.search(p, text_lower))\<close>.
\<close>

definition count_phrase_matches :: "string \<Rightarrow> regex list \<Rightarrow> nat" where
  "count_phrase_matches text patterns =
     (let text_lower = py_lower text
      in sum_list (map (\<lambda>p. 1) (filter (\<lambda>p. re_search p text_lower) patterns)))"

definition count_distinct_phrase_matches :: "string \<Rightarrow> regex list \<Rightarrow> nat" where
  "count_distinct_phrase_matches text patterns =
     (let text_lower = py_lower text
      in sum_list (map (\<lambda>p. 1) (filter (\<lambda>p. re_search p text_lower) patterns)))"

section \<open>Role classifier\<close>

text \<open>
  The first loop of \<^verbatim>\<open>_label_speakers_smart\<close>: speaking time, first appearance and
  segment count per speaker tag, gathered in the order of the diarization list.
\<close>

record speaker_stats =
  speaking_time :: "(string \<times> real) list"
  first_appearance :: "(string \<times> real) list"
  segment_count :: "(string \<times> nat) list"

definition gather_step :: "speaker_stats \<Rightarrow> diarization_segment \<Rightarrow> speaker_stats" where
  "gather_step st seg =
     (let dur = dseg_end seg - dseg_start seg;
          sp = dseg_speaker seg
      in \<lparr> speaking_time =
             dict_set (speaking_time st) sp (dict_get (speaking_time st) sp 0 + dur),
           first_appearance =
             (if map_of (first_appearance st) sp = None
              then dict_set (first_appearance st) sp (dseg_start seg)
              else first_appearance st),
           segment_count =
             dict_set (segment_count st) sp (dict_get (segment_count st) sp 0 + 1) \<rparr>)"

definition gather_stats :: "diarization_segment list \<Rightarrow> speaker_stats" where
  "gather_stats dsegs =
     foldl gather_step \<lparr> speaking_time = [], first_appearance = [], segment_count = [] \<rparr> dsegs"

text \<open>
  \<^verbatim>\<open>sorted(speaking_time, key=speaking_time.get, reverse=True)[:2]\<close>. Python's sort is
  stable also with \<^verbatim>\<open>reverse=True\<close>: tags of equal speaking time keep their insertion
  order. Each tag is kept with its speaking time, which is what \<^verbatim>\<open>speaking_time[sp]\<close>
  reads later.
\<close>

definition top_speakers :: "(string \<times> real) list \<Rightarrow> (string \<times> real) list" where
  "top_speakers spk_time = take 2 (sort_key (\<lambda>kv. - snd kv) spk_time)"

text \<open>
  The second loop: the stripped text of a transcription segment is appended to the list
  of its best-overlapping tag when that tag is one of the top speakers.
\<close>

definition collect_text ::
  "diarization_segment list \<Rightarrow> (string \<times> string list) list \<Rightarrow> transcription_segment
     \<Rightarrow> (string \<times> string list) list"
where
  "collect_text dsegs speaker_texts tseg =
     (case max_key (speaker_overlap tseg dsegs) of
        None \<Rightarrow> speaker_texts
      | Some best \<Rightarrow>
          (case map_of speaker_texts best of
             None \<Rightarrow> speaker_texts
           | Some texts \<Rightarrow> dict_set speaker_texts best (texts @ [py_strip (tseg_text tseg)])))"

definition speaker_texts ::
  "diarization_segment list \<Rightarrow> transcription_segment list \<Rightarrow> string list
     \<Rightarrow> (string \<times> string list) list"
where
  "speaker_texts dsegs tsegs tops = foldl (collect_text dsegs) (map (\<lambda>sp. (sp, [])) tops) tsegs"

text \<open>
  The seven signals of the scoring loop. Each takes the running value of
  \<^verbatim>\<open>scores[sp]\<close> and returns the updated one; \<open>texts\<close> is \<^verbatim>\<open>speaker_texts[sp]\<close>.
\<close>

definition all_text :: "string list \<Rightarrow> string" where
  "all_text texts = py_join '' '' texts"

definition signal1_agent_phrases :: "string list \<Rightarrow> real \<Rightarrow> real" where
  "signal1_agent_phrases texts score =
     (let agent_phrase_count = count_phrase_matches (all_text texts) AGENT_PHRASES
      in score + real agent_phrase_count * 3)"

definition short_responses :: "string list \<Rightarrow> nat" where
  "short_responses texts =
     sum_list (map (\<lambda>t. 1)
       (filter (\<lambda>t. count_phrase_matches t CUSTOMER_SHORT_RESPONSES > 0) texts))"

definition signal2_short_responses :: "string list \<Rightarrow> real \<Rightarrow> real" where
  "signal2_short_responses texts score = score - real (short_responses texts) * 2"

definition short_segments :: "string list \<Rightarrow> nat" where
  "short_segments texts =
     sum_list (map (\<lambda>t. 1) (filter (\<lambda>t. length (py_split t) < 5) texts))"

definition signal3_short_segments :: "string list \<Rightarrow> real \<Rightarrow> real" where
  "signal3_short_segments texts score = score - real (short_segments texts) * 1.5"

definition signal4_speaking_time :: "speaker_stats \<Rightarrow> real \<Rightarrow> real \<Rightarrow> real" where
  "signal4_speaking_time st time_sp score =
     (let total_time = sum_list (map snd (speaking_time st));
          time_pct = (if total_time > 0 then time_sp / total_time else 0)
      in if time_pct > 0.55 then score + 2 else score)"

definition signal5_avg_words :: "string list \<Rightarrow> real \<Rightarrow> real" where
  "signal5_avg_words texts score =
     (if texts \<noteq> []
      then (let avg_words =
                  real (sum_list (map (\<lambda>t. length (py_split t)) texts)) / real (length texts)
            in if avg_words > 8 then score + 1 else score)
      else score)"

definition signal6_diversity :: "string list \<Rightarrow> real \<Rightarrow> real" where
  "signal6_diversity texts score =
     (let distinct_agent = count_distinct_phrase_matches (all_text texts) AGENT_PHRASES
      in if distinct_agent \<ge> 3 then score + 2 else score)"

text \<open>
  \<^verbatim>\<open>first_appearance.get(sp, float("inf")) == min(first_appearance.values())\<close>: a tag
  that is no key compares infinity with a finite minimum.
\<close>

definition signal7_speaks_first :: "speaker_stats \<Rightarrow> string \<Rightarrow> real \<Rightarrow> real" where
  "signal7_speaks_first st sp score =
     (case map_of (first_appearance st) sp of
        None \<Rightarrow> score
      | Some t \<Rightarrow> if t = min_list (map snd (first_appearance st)) then score + 0.5 else score)"

definition score_speaker :: "speaker_stats \<Rightarrow> string \<Rightarrow> real \<Rightarrow> string list \<Rightarrow> real" where
  "score_speaker st sp time_sp texts =
     signal7_speaks_first st sp
       (signal6_diversity texts
         (signal5_avg_words texts
           (signal4_speaking_time st time_sp
             (signal3_short_segments texts
               (signal2_short_responses texts
                 (signal1_agent_phrases texts 0))))))"

text \<open>
  The scores of the top speakers, in the order of \<^verbatim>\<open>top_speakers\<close>. Every top speaker
  is a key of \<^verbatim>\<open>speaker_texts\<close>, so the default of \<open>dict_get\<close> is never taken.
\<close>

definition speaker_scores ::
  "diarization_segment list \<Rightarrow> transcription_segment list \<Rightarrow> (string \<times> real) list"
where
  "speaker_scores dsegs tsegs =
     (let st = gather_stats dsegs;
          tops = top_speakers (speaking_time st);
          texts = speaker_texts dsegs tsegs (map fst tops)
      in map (\<lambda>(sp, time_sp). (sp, score_speaker st sp time_sp (dict_get texts sp []))) tops)"

text \<open>The single-speaker rule, on \<^verbatim>\<open>debug_info[sp]\<close>.\<close>

definition single_speaker_role :: "string list \<Rightarrow> role" where
  "single_speaker_role texts =
     (if count_phrase_matches (all_text texts) AGENT_PHRASES = 0
         \<and> real (short_segments texts) > real (length texts) * 0.5
      then Customer else Agent)"

text \<open>
  \<^verbatim>\<open>_label_speakers_smart\<close>. A non-empty diarization list has at least one tag, so the
  list of top speakers has one or two entries; the last case is never reached.
\<close>

definition label_speakers_smart ::
  "diarization_segment list \<Rightarrow> transcription_segment list \<Rightarrow> (string \<times> role) list"
where
  "label_speakers_smart dsegs tsegs =
     (if dsegs = [] then []
      else
        (let st = gather_stats dsegs;
             tops = top_speakers (speaking_time st);
             texts = speaker_texts dsegs tsegs (map fst tops)
         in case speaker_scores dsegs tsegs of
              [(sp, score)] \<Rightarrow> [(sp, single_speaker_role (dict_get texts sp []))]
            | [(a, score_a), (b, score_b)] \<Rightarrow>
                (if score_a \<ge> score_b
                 then [(a, Agent), (b, Customer)]
                 else [(b, Agent), (a, Customer)])
            | _ \<Rightarrow> []))"

section \<open>The scoring rule in the words of the specification\<close>

text \<open>
  The specification words the first signal as ``+3.0 per occurrence of an agent-style
  phrase match found in the concatenated text''. \<open>occurrences\<close> counts the places of a
  text at which a match of the pattern starts, and \<open>spec_agent_phrase_gain\<close> is the gain
  those words describe. Both follow the specification, not the source; they are compared
  with \<open>signal1_agent_phrases\<close>, which follows the source.
\<close>

fun occurrences :: "regex \<Rightarrow> char option \<Rightarrow> string \<Rightarrow> nat" where
  "occurrences p prev [] = (if match_here p prev [] then 1 else 0)"
| "occurrences p prev (c # s) =
     (if match_here p prev (c # s) then 1 else 0) + occurrences p (Some c) s"

definition spec_agent_phrase_gain :: "string list \<Rightarrow> real" where
  "spec_agent_phrase_gain texts =
     3 * real (sum_list (map (\<lambda>p. occurrences p None (py_lower (all_text texts))) AGENT_PHRASES))"

section \<open>Pipeline\<close>

record transcription_result =
  tres_segments :: "transcription_segment list"
  tres_language :: string
  tres_language_probability :: real
  tres_duration :: real

record diarization_result =
  dres_segments :: "diarization_segment list"
  dres_num_speakers :: nat

datatype channel_mode = Stereo | Mono

record pipeline_result =
  pr_segments :: "aligned_segment list"
  pr_full_text :: string
  pr_language :: string
  pr_duration :: real
  pr_num_speakers :: nat
  pr_channel_mode :: channel_mode
  pr_raw_transcription :: "transcription_result option"
  pr_raw_diarization :: "diarization_result option"

text \<open>
  Exceptions, with the text \<^verbatim>\<open>str(e)\<close> gives. \<open>CollaboratorError\<close> stands for whatever
  other \<^verbatim>\<open>Exception\<close> a collaborator (decoder, recognizer, diarizer, database) raises.
  \<^verbatim>\<open>KeyboardInterrupt\<close> and \<^verbatim>\<open>SystemExit\<close> are exceptions too, but no subclasses of
  \<^verbatim>\<open>Exception\<close>: a clause \<^verbatim>\<open>except Exception\<close> does not catch them.
\<close>

datatype exn =
  FileNotFoundError string | ValueError string | AttributeError string | CollaboratorError string
  | KeyboardInterrupt | SystemExit

fun exn_str :: "exn \<Rightarrow> string" where
  "exn_str (FileNotFoundError msg) = msg"
| "exn_str (ValueError msg) = msg"
| "exn_str (AttributeError msg) = msg"
| "exn_str (CollaboratorError msg) = msg"
| "exn_str KeyboardInterrupt = []"
| "exn_str SystemExit = []"

text \<open>\<^verbatim>\<open>isinstance(e, Exception)\<close>\<close>

fun is_exception :: "exn \<Rightarrow> bool" where
  "is_exception KeyboardInterrupt = False"
| "is_exception SystemExit = False"
| "is_exception e = True"

text \<open>The decimal digits of a number, for \<^verbatim>\<open>f"... got {audio.channels}"\<close>.\<close>

function nat_str :: "nat \<Rightarrow> string" where
  "nat_str n =
     (if n < 10 then [''0123456789'' ! n]
      else nat_str (n div 10) @ [''0123456789'' ! (n mod 10)])"
  by pat_completeness auto
termination
  by (relation "measure id") auto

text \<open>
  A decoded \<^verbatim>\<open>AudioSegment\<close>: the sample stream of each channel, so that
  \<^verbatim>\<open>audio.channels\<close> is their number and \<^verbatim>\<open>audio.split_to_mono()\<close> gives one
  single-channel audio per stream.
\<close>

record audio_segment =
  channel_streams :: "int list list"

definition channels :: "audio_segment \<Rightarrow> nat" where
  "channels audio = length (channel_streams audio)"

definition split_to_mono :: "audio_segment \<Rightarrow> audio_segment list" where
  "split_to_mono audio = map (\<lambda>c. \<lparr> channel_streams = [c] \<rparr>) (channel_streams audio)"

text \<open>
  The collaborators. A file is known by its decoded content: the recognizer and the
  diarizer are functions of the audio in the file they are given, which for the two
  temporary files of the stereo path is one channel each.
\<close>

record env =
  path_exists :: "string \<Rightarrow> bool"
  from_file :: "string \<Rightarrow> exn + audio_segment"
  transcribe :: "audio_segment \<Rightarrow> exn + transcription_result"
  diarize :: "audio_segment \<Rightarrow> exn + diarization_result"

text \<open>What a run invoked, in order: the two services and the role classifier.\<close>

datatype call = Transcribe audio_segment | Diarize audio_segment | LabelSpeakers

text \<open>\<^verbatim>\<open>_split_stereo\<close>: (left, right); the two files are exported from channels 0 and 1.\<close>

definition split_stereo :: "audio_segment \<Rightarrow> exn + (audio_segment \<times> audio_segment)" where
  "split_stereo audio =
     (if channels audio \<noteq> 2
      then Inl (ValueError (''Expected stereo audio (2 channels), got '' @ nat_str (channels audio)))
      else Inr (split_to_mono audio ! 0, split_to_mono audio ! 1))"

text \<open>\<^verbatim>\<open>_build_full_text\<close>\<close>

definition render_line :: "string \<Rightarrow> string \<Rightarrow> string" where
  "render_line label text = ''['' @ label @ ''] '' @ text"

definition build_full_text :: "aligned_segment list \<Rightarrow> string" where
  "build_full_text segs =
     py_join [CHR 0x0A]
       (map (\<lambda>seg. render_line (py_capitalize (role_str (al_speaker seg))) (al_text seg)) segs)"

text \<open>The aligned segment the stereo path builds from a segment of one channel.\<close>

definition channel_segment :: "role \<Rightarrow> transcription_segment \<Rightarrow> aligned_segment" where
  "channel_segment r seg =
     \<lparr> al_speaker = r, al_text = tseg_text seg, al_start = tseg_start seg,
       al_end = tseg_end seg, al_confidence = avg_word_confidence seg \<rparr>"

text \<open>\<^verbatim>\<open>_run_stereo_pipeline\<close>; \<^verbatim>\<open>list.sort\<close> is stable, as \<open>sort_key\<close> is.\<close>

definition run_stereo_pipeline ::
  "env \<Rightarrow> audio_segment \<Rightarrow> (exn + pipeline_result) \<times> call list"
where
  "run_stereo_pipeline env audio =
     (case split_stereo audio of
        Inl e \<Rightarrow> (Inl e, [])
      | Inr (left, right) \<Rightarrow>
          (case transcribe env left of
             Inl e \<Rightarrow> (Inl e, [Transcribe left])
           | Inr agent_result \<Rightarrow>
               (case transcribe env right of
                  Inl e \<Rightarrow> (Inl e, [Transcribe left, Transcribe right])
                | Inr customer_result \<Rightarrow>
                    (let segs = sort_key al_start
                           (map (channel_segment Agent) (tres_segments agent_result)
                            @ map (channel_segment Customer) (tres_segments customer_result))
                     in (Inr \<lparr> pr_segments = segs,
                               pr_full_text = build_full_text segs,
                               pr_language = tres_language agent_result,
                               pr_duration =
                                 max (tres_duration agent_result) (tres_duration customer_result),
                               pr_num_speakers = 2,
                               pr_channel_mode = Stereo,
                               pr_raw_transcription = None,
                               pr_raw_diarization = None \<rparr>,
                         [Transcribe left, Transcribe right])))))"

text \<open>\<^verbatim>\<open>_run_mono_pipeline\<close>\<close>

definition run_mono_pipeline ::
  "env \<Rightarrow> audio_segment \<Rightarrow> (exn + pipeline_result) \<times> call list"
where
  "run_mono_pipeline env audio =
     (case diarize env audio of
        Inl e \<Rightarrow> (Inl e, [Diarize audio])
      | Inr diarization \<Rightarrow>
          (case transcribe env audio of
             Inl e \<Rightarrow> (Inl e, [Diarize audio, Transcribe audio])
           | Inr transcription \<Rightarrow>
               (let speaker_map =
                      label_speakers_smart (dres_segments diarization) (tres_segments transcription);
                    segs = align_segments (tres_segments transcription)
                             (dres_segments diarization) speaker_map
                in (Inr \<lparr> pr_segments = segs,
                          pr_full_text = build_full_text segs,
                          pr_language = tres_language transcription,
                          pr_duration = tres_duration transcription,
                          pr_num_speakers = dres_num_speakers diarization,
                          pr_channel_mode = Mono,
                          pr_raw_transcription = Some transcription,
                          pr_raw_diarization = Some diarization \<rparr>,
                    [Diarize audio, Transcribe audio, LabelSpeakers]))))"

text \<open>\<^verbatim>\<open>TranscriptionPipeline.process\<close>\<close>

definition process :: "env \<Rightarrow> string \<Rightarrow> (exn + pipeline_result) \<times> call list" where
  "process env audio_path =
     (if \<not> path_exists env audio_path
      then (Inl (FileNotFoundError (''Audio file not found: '' @ audio_path)), [])
      else
        (case from_file env audio_path of
           Inl e \<Rightarrow> (Inl e, [])
         | Inr audio \<Rightarrow>
             (if channels audio \<ge> 2
              then run_stereo_pipeline env audio
              else run_mono_pipeline env audio)))"

section \<open>Persistent storage\<close>

text \<open>
  The tables \<^verbatim>\<open>recordings\<close>, \<^verbatim>\<open>transcripts\<close> and \<^verbatim>\<open>segments\<close> of \<^verbatim>\<open>db/models.py\<close>, each a
  list of rows in insertion order, which is also the order in which a query without
  \<^verbatim>\<open>order_by\<close> returns them. A nullable column is an \<open>option\<close>. A time stamp is a number.
\<close>

datatype status = Pending | Processing | Done | Error

type_synonym datetime = nat

record recording =
  rec_id :: nat
  rec_filename :: string
  rec_filepath :: string
  rec_duration_seconds :: "real option"
  rec_created_at :: "datetime option"
  rec_processed_at :: "datetime option"
  rec_status :: status
  rec_error_message :: "string option"

record transcript =
  tr_id :: nat
  tr_recording_id :: nat
  tr_full_text :: "string option"
  tr_language :: "string option"
  tr_model_used :: "string option"

record segment =
  seg_id :: nat
  seg_transcript_id :: nat
  seg_speaker_label :: "string option"
  seg_text :: string
  seg_start_time :: real
  seg_end_time :: real
  seg_confidence :: "real option"

record database =
  recordings :: "recording list"
  transcripts :: "transcript list"
  segments :: "segment list"

text \<open>
  A session holds the committed state of the database and the state its own pending
  writes have produced. \<^verbatim>\<open>commit\<close> makes the pending writes the committed state,
  \<^verbatim>\<open>rollback\<close> drops them, and \<^verbatim>\<open>close\<close> leaves the committed state.
\<close>

record session =
  committed :: database
  working :: database

definition open_session :: "database \<Rightarrow> session" where
  "open_session db = \<lparr> committed = db, working = db \<rparr>"

definition commit :: "session \<Rightarrow> session" where
  "commit s = s\<lparr> committed := working s \<rparr>"

definition rollback :: "session \<Rightarrow> session" where
  "rollback s = s\<lparr> working := committed s \<rparr>"

text \<open>The key a new row gets: one more than the largest key of the table.\<close>

definition next_id :: "nat list \<Rightarrow> nat" where
  "next_id ids = Suc (foldr max ids 0)"

text \<open>An attribute assignment on the loaded row with primary key \<open>rid\<close>.\<close>

definition update_recording :: "nat \<Rightarrow> (recording \<Rightarrow> recording) \<Rightarrow> database \<Rightarrow> database" where
  "update_recording rid f db =
     db\<lparr> recordings := map (\<lambda>r. if rec_id r = rid then f r else r) (recordings db) \<rparr>"

text \<open>\<^verbatim>\<open>file_path.name\<close>: the last component of the path.\<close>

definition path_name :: "string \<Rightarrow> string" where
  "path_name p = rev (takeWhile (\<lambda>c. c \<noteq> CHR ''/'') (rev p))"

section \<open>Recording lifecycle\<close>

text \<open>
  \<^verbatim>\<open>_process_file\<close>, lines 65 to 86: the look-up of the recording of the path. \<open>None\<close>
  is the early return for a recording that is done; otherwise the result is the
  committed database and the key of the recording, which is now pending.
\<close>

definition enqueue :: "datetime \<Rightarrow> string \<Rightarrow> database \<Rightarrow> (database \<times> nat) option" where
  "enqueue now file_path db =
     (case find (\<lambda>r. rec_filepath r = file_path) (recordings db) of
        Some existing \<Rightarrow>
          (if rec_status existing = Done then None
           else Some (update_recording (rec_id existing)
                        (\<lambda>r. r\<lparr> rec_status := Pending, rec_error_message := None \<rparr>) db,
                      rec_id existing))
      | None \<Rightarrow>
          (let rid = next_id (map rec_id (recordings db))
           in Some (db\<lparr> recordings := recordings db @
                        [\<lparr> rec_id = rid, rec_filename = path_name file_path,
                           rec_filepath = file_path, rec_duration_seconds = None,
                           rec_created_at = Some now, rec_processed_at = None,
                           rec_status = Pending, rec_error_message = None \<rparr>] \<rparr>,
                    rid)))"

text \<open>
  The places of \<^verbatim>\<open>_process_file\<close> at which the database can raise, besides the pipeline
  itself. Before the \<^verbatim>\<open>try\<close> block: \<^verbatim>\<open>init_db()\<close> (line 62), the look-up of the
  recording (line 66), the commit of the pending recording (line 77 or 85) and the read
  of its key for the log line (line 86). Inside the block: the commit of the status
  \<^verbatim>\<open>processing\<close> (line 90), the read of the key for the transcript (line 96, after
  the pipeline has returned), the flush after the transcript is added (line 101), the
  \<open>k\<close>-th turn of the loop that adds the segments, the final commit (line 117) and the
  read of the key after it (line 118). In the handler: the rollback (line 121), the
  fetch of the recording (line 123) and the commit of the error (line 127). A fault
  oracle says which of them raises, and what.
\<close>

datatype fault_point =
  InitDb | LookUp | CommitPending | ReadKeyPending
  | CommitProcessing | ReadKeyProcessing | FlushTranscript | AddSegment nat | CommitDone
  | ReadKeyDone
  | HandlerRollback | HandlerGet | HandlerCommit

type_synonym faults = "fault_point \<Rightarrow> exn option"

definition new_segment :: "nat \<Rightarrow> nat \<Rightarrow> aligned_segment \<Rightarrow> segment" where
  "new_segment sid tid seg =
     \<lparr> seg_id = sid, seg_transcript_id = tid,
       seg_speaker_label = Some (role_str (al_speaker seg)), seg_text = al_text seg,
       seg_start_time = al_start seg, seg_end_time = al_end seg,
       seg_confidence = al_confidence seg \<rparr>"

fun add_segments ::
  "faults \<Rightarrow> nat \<Rightarrow> nat \<Rightarrow> aligned_segment list \<Rightarrow> database \<Rightarrow> (exn \<times> database) + database"
where
  "add_segments fault tid k [] db = Inr db"
| "add_segments fault tid k (seg # segs) db =
     (case fault (AddSegment k) of
        Some e \<Rightarrow> Inl (e, db)
      | None \<Rightarrow>
          add_segments fault tid (Suc k) segs
            (db\<lparr> segments := segments db @
                   [new_segment (next_id (map seg_id (segments db))) tid seg] \<rparr>))"

text \<open>
  Lines 88 to 118, the \<^verbatim>\<open>try\<close> block: \<open>Inr\<close> the session at its end, or \<open>Inl\<close> the
  exception raised and the session as it was then.
\<close>

definition try_block ::
  "faults \<Rightarrow> env \<Rightarrow> datetime \<Rightarrow> string \<Rightarrow> nat \<Rightarrow> session \<Rightarrow> (exn \<times> session) + session"
where
  "try_block fault env now file_path rid s =
     (let s1 = s\<lparr> working :=
                   update_recording rid (\<lambda>r. r\<lparr> rec_status := Processing \<rparr>) (working s) \<rparr>
      in case fault CommitProcessing of
           Some e \<Rightarrow> Inl (e, s1)
         | None \<Rightarrow>
      (let s2 = commit s1
       in case fst (process env file_path) of
            Inl e \<Rightarrow> Inl (e, s2)
          | Inr result \<Rightarrow>
      (case fault ReadKeyProcessing of
         Some e \<Rightarrow> Inl (e, s2)
       | None \<Rightarrow>
      (let tid = next_id (map tr_id (transcripts (working s2)));
           s3 = s2\<lparr> working := (working s2)\<lparr> transcripts := transcripts (working s2) @
                      [\<lparr> tr_id = tid, tr_recording_id = rid,
                         tr_full_text = Some (pr_full_text result),
                         tr_language = Some (pr_language result),
                         tr_model_used = None \<rparr>] \<rparr> \<rparr>
       in case fault FlushTranscript of
            Some e \<Rightarrow> Inl (e, s3)
          | None \<Rightarrow>
      (case add_segments fault tid 0 (pr_segments result) (working s3) of
         Inl (e, db) \<Rightarrow> Inl (e, s3\<lparr> working := db \<rparr>)
       | Inr db4 \<Rightarrow>
      (let s5 = s3\<lparr> working :=
                    update_recording rid
                      (\<lambda>r. r\<lparr> rec_status := Done,
                              rec_duration_seconds := Some (pr_duration result),
                              rec_processed_at := Some now \<rparr>) db4 \<rparr>
       in case fault CommitDone of
            Some e \<Rightarrow> Inl (e, s5)
          | None \<Rightarrow>
      (let s6 = commit s5
       in case fault ReadKeyDone of
            Some e \<Rightarrow> Inl (e, s6)
          | None \<Rightarrow> Inr s6)))))))"

text \<open>
  Lines 120 to 128, the handler: roll back, fetch the recording again by its key and,
  if it is there, record the error and commit. An exception raised in the handler is
  not caught: the result is that exception, if any, and the session.
\<close>

definition on_exception :: "faults \<Rightarrow> exn \<Rightarrow> nat \<Rightarrow> session \<Rightarrow> exn option \<times> session" where
  "on_exception fault e rid s =
     (case fault HandlerRollback of
        Some e' \<Rightarrow> (Some e', s)
      | None \<Rightarrow>
     (let s1 = rollback s
      in case fault HandlerGet of
           Some e' \<Rightarrow> (Some e', s1)
         | None \<Rightarrow>
     (case find (\<lambda>r. rec_id r = rid) (recordings (working s1)) of
        None \<Rightarrow> (None, s1)
      | Some recording \<Rightarrow>
          (let s2 = s1\<lparr> working :=
                        update_recording rid
                          (\<lambda>r. r\<lparr> rec_status := Error, rec_error_message := Some (exn_str e) \<rparr>)
                          (working s1) \<rparr>
           in case fault HandlerCommit of
                Some e' \<Rightarrow> (Some e', s2)
              | None \<Rightarrow> (None, commit s2)))))"

text \<open>
  \<^verbatim>\<open>_process_file\<close>: the exception that reaches the caller, if any, and the database
  left behind, which is the committed state when the session is closed or abandoned.
  \<open>t_insert\<close> and \<open>t_done\<close> are the two readings of the clock. Nothing guards the
  statements before the \<^verbatim>\<open>try\<close> block. The clause \<^verbatim>\<open>except Exception\<close> sends an
  exception of the block to the handler when it is an \<^verbatim>\<open>Exception\<close>; any other one
  passes through \<^verbatim>\<open>finally\<close> to the caller.
\<close>

definition process_file ::
  "faults \<Rightarrow> env \<Rightarrow> datetime \<Rightarrow> datetime \<Rightarrow> string \<Rightarrow> database \<Rightarrow> exn option \<times> database"
where
  "process_file fault env t_insert t_done file_path db =
     (case fault InitDb of
        Some e \<Rightarrow> (Some e, db)
      | None \<Rightarrow>
     (case fault LookUp of
        Some e \<Rightarrow> (Some e, db)
      | None \<Rightarrow>
     (case enqueue t_insert file_path db of
        None \<Rightarrow> (None, db)
      | Some (db1, rid) \<Rightarrow>
     (case fault CommitPending of
        Some e \<Rightarrow> (Some e, db)
      | None \<Rightarrow>
     (case fault ReadKeyPending of
        Some e \<Rightarrow> (Some e, db1)
      | None \<Rightarrow>
     (case try_block fault env t_done file_path rid (open_session db1) of
        Inr s \<Rightarrow> (None, committed s)
      | Inl (e, s) \<Rightarrow>
          (if is_exception e
           then (case on_exception fault e rid s of (raised, s') \<Rightarrow> (raised, committed s'))
           else (Some e, committed s))))))))"

text \<open>
  \<^verbatim>\<open>reprocess_recording\<close> of \<^verbatim>\<open>api/server.py\<close>. Deleting a transcript deletes its
  segments with it (\<^verbatim>\<open>cascade="all, delete-orphan"\<close>). \<open>None\<close> is the 404 answer. The
  background thread is run to its end; an exception that ends it reaches no caller, so
  the result is the database it leaves.
\<close>

definition delete_transcript :: "database \<Rightarrow> transcript \<Rightarrow> database" where
  "delete_transcript db t =
     db\<lparr> transcripts := filter (\<lambda>t'. tr_id t' \<noteq> tr_id t) (transcripts db),
         segments := filter (\<lambda>s. seg_transcript_id s \<noteq> tr_id t) (segments db) \<rparr>"

definition reprocess_reset :: "nat \<Rightarrow> database \<Rightarrow> database option" where
  "reprocess_reset recording_id db =
     (case find (\<lambda>r. rec_id r = recording_id) (recordings db) of
        None \<Rightarrow> None
      | Some recording \<Rightarrow>
          (let old_transcripts =
                 filter (\<lambda>t. tr_recording_id t = recording_id) (transcripts db);
               db1 = foldl delete_transcript db old_transcripts
           in Some (update_recording recording_id
                      (\<lambda>r. r\<lparr> rec_status := Pending, rec_error_message := None,
                              rec_processed_at := None \<rparr>) db1)))"

definition reprocess_recording ::
  "faults \<Rightarrow> env \<Rightarrow> datetime \<Rightarrow> datetime \<Rightarrow> nat \<Rightarrow> database \<Rightarrow> database option"
where
  "reprocess_recording fault env t_insert t_done recording_id db =
     (case find (\<lambda>r. rec_id r = recording_id) (recordings db) of
        None \<Rightarrow> None
      | Some recording \<Rightarrow>
          (case reprocess_reset recording_id db of
             None \<Rightarrow> None
           | Some db1 \<Rightarrow>
               Some (snd (process_file fault env t_insert t_done
                            (rec_filepath recording) db1))))"

section \<open>Role swap\<close>







section \<open>Sample inputs\<close>

text \<open>Segments as the collaborators return them, for the concrete instances below.\<close>

definition dseg_of :: "string \<Rightarrow> real \<Rightarrow> real \<Rightarrow> diarization_segment" where
  "dseg_of sp s e = \<lparr> dseg_speaker = sp, dseg_start = s, dseg_end = e \<rparr>"

definition tseg_of :: "string \<Rightarrow> real \<Rightarrow> real \<Rightarrow> transcription_segment" where
  "tseg_of txt s e = \<lparr> tseg_text = txt, tseg_start = s, tseg_end = e, tseg_words = [],
     tseg_avg_logprob = 0, tseg_no_speech_prob = 0 \<rparr>"

text \<open>A recognizer that hears two agent turns on one channel and a customer turn on the other.\<close>

definition sample_agent_channel :: transcription_result where
  "sample_agent_channel =
     \<lparr> tres_segments = [tseg_of ''dzien dobry'' 0 2, tseg_of ''rabat'' 5 6],
       tres_language = ''pl'', tres_language_probability = 1, tres_duration = 6 \<rparr>"

definition sample_customer_channel :: transcription_result where
  "sample_customer_channel =
     \<lparr> tres_segments = [tseg_of ''tak'' 2 3],
       tres_language = ''pl'', tres_language_probability = 1, tres_duration = 7 \<rparr>"

text \<open>
  Collaborators for a file \<^verbatim>\<open>/in/call.wav\<close> that decodes to the given audio; the
  diarizer always raises.
\<close>

definition sample_env :: "audio_segment \<Rightarrow> env" where
  "sample_env audio =
     \<lparr> path_exists = (\<lambda>p. p = ''/in/call.wav''),
       from_file = (\<lambda>p. Inr audio),
       transcribe = (\<lambda>a. if a = \<lparr> channel_streams = [[1, 2]] \<rparr> then Inr sample_agent_channel
                           else Inr sample_customer_channel),
       diarize = (\<lambda>a. Inl (CollaboratorError ''diarizer down'')) \<rparr>"

definition stereo_audio :: audio_segment where
  "stereo_audio = \<lparr> channel_streams = [[1, 2], [3, 4]] \<rparr>"

definition three_channel_audio :: audio_segment where
  "three_channel_audio = \<lparr> channel_streams = [[1, 2], [3, 4], [5, 6]] \<rparr>"


definition no_faults :: faults where
  "no_faults = (\<lambda>p. None)"

text \<open>
  A database in which the recording of \<^verbatim>\<open>/in/call.wav\<close> is in state \<^verbatim>\<open>error\<close> and yet
  has a processed time stamp, a transcript and a segment.
\<close>

definition failed_recording :: recording where
  "failed_recording =
     \<lparr> rec_id = 1, rec_filename = ''call.wav'', rec_filepath = ''/in/call.wav'',
       rec_duration_seconds = Some 7, rec_created_at = Some 1, rec_processed_at = Some 5,
       rec_status = Error, rec_error_message = Some ''boom'' \<rparr>"

definition sample_failed_db :: database where
  "sample_failed_db =
     \<lparr> recordings = [failed_recording],
       transcripts =
         [\<lparr> tr_id = 1, tr_recording_id = 1, tr_full_text = Some ''[Agent] halo'',
            tr_language = Some ''pl'', tr_model_used = None \<rparr>],
       segments =
         [\<lparr> seg_id = 1, seg_transcript_id = 1, seg_speaker_label = Some ''agent'',
            seg_text = ''halo'', seg_start_time = 0, seg_end_time = 1,
            seg_confidence = None \<rparr>] \<rparr>"
















section \<open>Properties of the overlap aligner\<close>

lemma overlap_nonneg: "0 \<le> overlap a b c d"
  by (simp add: overlap_def)

lemma overlap_commute: "overlap a b c d = overlap c d a b"
  by (simp add: overlap_def min.commute max.commute)

text \<open>
  Claim C9. The interval overlap is symmetric and non-negative, and it is exactly 0 when
  the two intervals are disjoint (one ends no later than the other starts).
\<close>

theorem overlap_symmetric_nonneg_disjoint:
  "overlap a_start a_end b_start b_end = overlap b_start b_end a_start a_end
   \<and> 0 \<le> overlap a_start a_end b_start b_end
   \<and> 0 \<le> overlap b_start b_end a_start a_end
   \<and> (a_end \<le> b_start \<or> b_end \<le> a_start \<longrightarrow> overlap a_start a_end b_start b_end = 0)"
proof -
  have sym: "overlap a_start a_end b_start b_end = overlap b_start b_end a_start a_end"
    by (rule overlap_commute)
  have disj: "overlap a_start a_end b_start b_end = 0"
    if "a_end \<le> b_start \<or> b_end \<le> a_start"
  proof -
    have "min a_end b_end \<le> max a_start b_start"
      using that by (auto simp: min_def max_def)
    then show ?thesis by (simp add: overlap_def)
  qed
  show ?thesis using sym disj overlap_nonneg by blast
qed

theorem overlap_symmetric_nonneg_disjoint_witness:
  "overlap 0 5 5 10 = overlap 5 10 0 5 \<and> overlap 0 5 5 10 = 0
   \<and> overlap 1 4 0 5 = 3 \<and> overlap 0 5 1 4 = 3"
  using overlap_symmetric_nonneg_disjoint [of 0 5 5 10]
  by (simp add: overlap_def)

lemma align_segments_map: "align_segments tsegs dsegs m = map (align_one dsegs m) tsegs"
  by (induction tsegs) simp_all

lemma foldl_add_overlap_none:
  "\<forall>d \<in> set dsegs. overlap (tseg_start t) (tseg_end t) (dseg_start d) (dseg_end d) = 0
   \<Longrightarrow> foldl (add_overlap t) acc dsegs = acc"
  by (induction dsegs arbitrary: acc) (simp_all add: add_overlap_def)

lemma speaker_overlap_none:
  "\<forall>d \<in> set dsegs. overlap (tseg_start t) (tseg_end t) (dseg_start d) (dseg_end d) = 0
   \<Longrightarrow> speaker_overlap t dsegs = []"
  by (simp add: speaker_overlap_def foldl_add_overlap_none)

lemmas eval_align = speaker_overlap_def add_overlap_def overlap_def dict_get_def
  align_label_def align_one_def dseg_of_def tseg_of_def Let_def

text \<open>
  Claim C6. A transcription segment that has zero overlap with every diarization segment
  (also when there is no diarization segment at all) gets the fallback role agent, and
  \<open>align_segments\<close> still emits one aligned segment per transcription segment, at the
  same position and with the same text and time stamps.
\<close>

theorem align_no_overlap_agent:
  assumes i: "i < length tsegs"
    and none: "\<forall>d \<in> set dsegs.
        overlap (tseg_start (tsegs ! i)) (tseg_end (tsegs ! i)) (dseg_start d) (dseg_end d) = 0"
  shows "length (align_segments tsegs dsegs speaker_map) = length tsegs
    \<and> al_speaker (align_segments tsegs dsegs speaker_map ! i) = Agent
    \<and> al_text (align_segments tsegs dsegs speaker_map ! i) = tseg_text (tsegs ! i)
    \<and> al_start (align_segments tsegs dsegs speaker_map ! i) = tseg_start (tsegs ! i)
    \<and> al_end (align_segments tsegs dsegs speaker_map ! i) = tseg_end (tsegs ! i)"
proof -
  have "speaker_overlap (tsegs ! i) dsegs = []"
    using none by (rule speaker_overlap_none)
  then have "align_label dsegs speaker_map (tsegs ! i) = Agent"
    by (simp add: align_label_def)
  then show ?thesis
    using i by (simp add: align_segments_map align_one_def)
qed

text \<open>
  The instance is scenario B of the specification, after a segment that does overlap:
  the second transcription segment lies in [10, 12], the diarization covers [0, 10].
\<close>

theorem align_no_overlap_agent_witness:
  "align_segments [tseg_of ''a'' 1 4, tseg_of ''b'' 10 12] [dseg_of ''X'' 0 5, dseg_of ''Y'' 5 10]
      [(''X'', Customer), (''Y'', Agent)]
   = [\<lparr> al_speaker = Customer, al_text = ''a'', al_start = 1, al_end = 4, al_confidence = None \<rparr>,
      \<lparr> al_speaker = Agent, al_text = ''b'', al_start = 10, al_end = 12, al_confidence = None \<rparr>]"
  using align_no_overlap_agent [of 1 "[tseg_of ''a'' 1 4, tseg_of ''b'' 10 12]"
      "[dseg_of ''X'' 0 5, dseg_of ''Y'' 5 10]" "[(''X'', Customer), (''Y'', Agent)]"]
  by (simp add: eval_align avg_word_confidence_def)



section \<open>Properties of the role classifier\<close>

lemma map_of_dict_set: "map_of (dict_set d k v) = (map_of d)(k \<mapsto> v)"
  by (induction d) (auto simp: fun_upd_twist)

lemma count_phrase_matches_card:
  "count_phrase_matches text patterns
     = card {i. i < length patterns \<and> re_search (patterns ! i) (py_lower text)}"
  by (simp add: count_phrase_matches_def length_filter_conv_card sum_list_triv)

lemma count_phrase_matches_le: "count_phrase_matches text patterns \<le> length patterns"
  by (simp add: count_phrase_matches_def sum_list_triv)

lemma length_AGENT_PHRASES: "length AGENT_PHRASES = 50"
  by (simp add: AGENT_PHRASES_def)

text \<open>Signals 2 to 7 add a constant to the running score.\<close>

lemma signal2_shift: "signal2_short_responses texts (a + b) = a + signal2_short_responses texts b"
  by (simp add: signal2_short_responses_def)

lemma signal3_shift: "signal3_short_segments texts (a + b) = a + signal3_short_segments texts b"
  by (simp add: signal3_short_segments_def)

lemma signal4_shift: "signal4_speaking_time st t (a + b) = a + signal4_speaking_time st t b"
  by (simp add: signal4_speaking_time_def Let_def)

lemma signal5_shift: "signal5_avg_words texts (a + b) = a + signal5_avg_words texts b"
  by (simp add: signal5_avg_words_def Let_def)

lemma signal6_shift: "signal6_diversity texts (a + b) = a + signal6_diversity texts b"
  by (simp add: signal6_diversity_def Let_def)

lemma signal7_shift: "signal7_speaks_first st sp (a + b) = a + signal7_speaks_first st sp b"
  by (simp add: signal7_speaks_first_def split: option.split)

text \<open>
  Claim C1, amended. The score of a candidate is 3.0 times the number of agent-style
  patterns that match somewhere in the lower-cased concatenation of its texts, plus what
  the other six signals give: a pattern counts once however often it occurs, so the
  phrase signal is at most 3.0 times the 50 patterns of the table. The classifier scores
  every candidate, one or two of them, in this way on the texts attributed to it.
\<close>

theorem score_gains_three_per_matching_pattern:
  "score_speaker st sp time_sp texts =
     3 * real (card {i. i < length AGENT_PHRASES
                      \<and> re_search (AGENT_PHRASES ! i) (py_lower (all_text texts))})
     + signal7_speaks_first st sp
         (signal6_diversity texts
           (signal5_avg_words texts
             (signal4_speaking_time st time_sp
               (signal3_short_segments texts
                 (signal2_short_responses texts 0)))))
   \<and> card {i. i < length AGENT_PHRASES
             \<and> re_search (AGENT_PHRASES ! i) (py_lower (all_text texts))} \<le> 50
   \<and> speaker_scores dsegs tsegs =
       map (\<lambda>(sp, time_sp).
              (sp, score_speaker (gather_stats dsegs) sp time_sp
                     (dict_get (speaker_texts dsegs tsegs
                        (map fst (top_speakers (speaking_time (gather_stats dsegs))))) sp [])))
         (top_speakers (speaking_time (gather_stats dsegs)))"
proof -
  let ?n = "card {i. i < length AGENT_PHRASES
                   \<and> re_search (AGENT_PHRASES ! i) (py_lower (all_text texts))}"
  have s1: "signal1_agent_phrases texts 0 = 3 * real ?n + 0"
    by (simp add: signal1_agent_phrases_def count_phrase_matches_card)
  have bound: "?n \<le> 50"
    using count_phrase_matches_le [of "all_text texts" AGENT_PHRASES]
    by (simp add: count_phrase_matches_card length_AGENT_PHRASES)
  have entries: "speaker_scores dsegs tsegs =
       map (\<lambda>(sp, time_sp).
              (sp, score_speaker (gather_stats dsegs) sp time_sp
                     (dict_get (speaker_texts dsegs tsegs
                        (map fst (top_speakers (speaking_time (gather_stats dsegs))))) sp [])))
         (top_speakers (speaking_time (gather_stats dsegs)))"
    by (simp add: speaker_scores_def Let_def)
  have "score_speaker st sp time_sp texts =
     3 * real ?n
     + signal7_speaks_first st sp
         (signal6_diversity texts
           (signal5_avg_words texts
             (signal4_speaking_time st time_sp
               (signal3_short_segments texts
                 (signal2_short_responses texts 0)))))"
    unfolding score_speaker_def s1
    by (simp only: signal2_shift signal3_shift signal4_shift signal5_shift signal6_shift
          signal7_shift)
  with bound entries show ?thesis
    by blast
qed

text \<open>
  Speaker X says ``rabat rabat'' in [0, 10], speaker Y says ``tak'' in [10, 20]. One
  pattern matches the text of X: 3.0 for it, - 1.5 for a short segment, + 0.5 for
  speaking first.
\<close>

theorem score_gains_three_per_matching_pattern_witness:
  "speaker_scores [dseg_of ''X'' 0 10, dseg_of ''Y'' 10 20]
      [tseg_of ''rabat rabat'' 0 10, tseg_of ''tak'' 10 20] = [(''X'', 2), (''Y'', - 7 / 2)]
   \<and> card {i. i < length AGENT_PHRASES
          \<and> re_search (AGENT_PHRASES ! i) (py_lower (all_text [''rabat rabat'']))} = 1
   \<and> score_speaker (gather_stats [dseg_of ''X'' 0 10, dseg_of ''Y'' 10 20]) ''X'' 10 [''rabat rabat'']
       = 3 * 1 - 1"
proof -
  have a: "speaker_scores [dseg_of ''X'' 0 10, dseg_of ''Y'' 10 20]
      [tseg_of ''rabat rabat'' 0 10, tseg_of ''tak'' 10 20] = [(''X'', 2), (''Y'', - 7 / 2)]"
    by code_simp
  have b: "signal7_speaks_first (gather_stats [dseg_of ''X'' 0 10, dseg_of ''Y'' 10 20]) ''X''
         (signal6_diversity [''rabat rabat'']
           (signal5_avg_words [''rabat rabat'']
             (signal4_speaking_time (gather_stats [dseg_of ''X'' 0 10, dseg_of ''Y'' 10 20]) 10
               (signal3_short_segments [''rabat rabat'']
                 (signal2_short_responses [''rabat rabat''] 0))))) = - 1"
    by code_simp
  have "count_phrase_matches (all_text [''rabat rabat'']) AGENT_PHRASES = 1"
    by code_simp
  then have c: "card {i. i < length AGENT_PHRASES
          \<and> re_search (AGENT_PHRASES ! i) (py_lower (all_text [''rabat rabat'']))} = 1"
    by (simp only: count_phrase_matches_card)
  show ?thesis
    using score_gains_three_per_matching_pattern
      [of "gather_stats [dseg_of ''X'' 0 10, dseg_of ''Y'' 10 20]" "''X''" 10 "[''rabat rabat'']"
          "[]" "[]"]
    by (simp only: a b c) simp
qed

text \<open>
  Claim C1 as stated fails there: ``rabat'' occurs twice in the text of X, so 3.0 per
  occurrence would be a gain of 6.0, and the code gives 3.0 (the score of X is 2, not 5).
\<close>

theorem per_occurrence_scoring_counterexample:
  "speaker_scores [dseg_of ''X'' 0 10, dseg_of ''Y'' 10 20]
      [tseg_of ''rabat rabat'' 0 10, tseg_of ''tak'' 10 20] = [(''X'', 2), (''Y'', - 7 / 2)]
   \<and> occurrences (lit ''rabat'') None (py_lower (all_text [''rabat rabat''])) = 2
   \<and> spec_agent_phrase_gain [''rabat rabat''] = 6
   \<and> signal1_agent_phrases [''rabat rabat''] 0 = 3"
  by code_simp


lemma dict_get_dict_set:
  "dict_get (dict_set d k v) k' dflt = (if k' = k then v else dict_get d k' dflt)"
  by (simp add: dict_get_def map_of_dict_set)

lemma foldl_dict_add:
  fixes val :: "'a \<Rightarrow> 'v::monoid_add"
  shows "map_of (foldl (\<lambda>acc x. if P x then dict_set acc (key x) (dict_get acc (key x) 0 + val x)
                                else acc) acc xs) k =
     (if \<exists>x \<in> set xs. P x \<and> key x = k
      then Some (dict_get acc k 0 + sum_list (map val (filter (\<lambda>x. P x \<and> key x = k) xs)))
      else map_of acc k)"
proof (induction xs arbitrary: acc)
  case Nil
  then show ?case by simp
next
  case (Cons x xs)
  show ?case
  proof (cases "P x \<and> key x = k")
    case False
    then show ?thesis
      by (auto simp: Cons.IH dict_get_dict_set map_of_dict_set)
  next
    case True
    show ?thesis
    proof (cases "\<exists>y \<in> set xs. P y \<and> key y = k")
      case True
      with \<open>P x \<and> key x = k\<close> show ?thesis
        by (auto simp: Cons.IH dict_get_dict_set add.assoc)
    next
      case False
      then have "filter (\<lambda>x. P x \<and> key x = k) xs = []"
        by (auto simp: filter_empty_conv)
      with False \<open>P x \<and> key x = k\<close> show ?thesis
        by (auto simp: Cons.IH dict_get_dict_set map_of_dict_set)
    qed
  qed
qed

lemma speaking_time_foldl:
  "speaking_time (foldl gather_step st dsegs) =
     foldl (\<lambda>acc d. if True then dict_set acc (dseg_speaker d)
                       (dict_get acc (dseg_speaker d) 0 + (dseg_end d - dseg_start d)) else acc)
       (speaking_time st) dsegs"
  by (induction dsegs arbitrary: st) (simp_all add: gather_step_def Let_def)

lemma segment_count_foldl:
  "segment_count (foldl gather_step st dsegs) =
     foldl (\<lambda>acc d. if True then dict_set acc (dseg_speaker d)
                       (dict_get acc (dseg_speaker d) 0 + 1) else acc)
       (segment_count st) dsegs"
  by (induction dsegs arbitrary: st) (simp_all add: gather_step_def Let_def)

lemma speaker_overlap_foldl:
  "speaker_overlap t dsegs =
     foldl (\<lambda>acc d. if 0 < overlap (tseg_start t) (tseg_end t) (dseg_start d) (dseg_end d)
              then dict_set acc (dseg_speaker d) (dict_get acc (dseg_speaker d) 0
                     + overlap (tseg_start t) (tseg_end t) (dseg_start d) (dseg_end d))
              else acc) [] dsegs"
  by (simp add: speaker_overlap_def add_overlap_def [abs_def] Let_def)

lemma sum_list_filter_mset:
  fixes f :: "'a \<Rightarrow> 'v::comm_monoid_add"
  assumes eq: "mset xs = mset ys"
  shows "sum_list (map f (filter P xs)) = sum_list (map f (filter P ys))"
proof -
  have "sum_list (map f (filter P xs)) = sum_mset (image_mset f (filter_mset P (mset xs)))"
    by (metis mset_filter mset_map sum_mset_sum_list)
  also have "\<dots> = sum_mset (image_mset f (filter_mset P (mset ys)))"
    by (simp add: eq)
  also have "\<dots> = sum_list (map f (filter P ys))"
    by (metis mset_filter mset_map sum_mset_sum_list)
  finally show ?thesis .
qed

lemma foldl_dict_add_perm:
  fixes val :: "'a \<Rightarrow> 'v::comm_monoid_add"
  assumes "mset xs = mset ys"
  shows "map_of (foldl (\<lambda>acc x. if P x then dict_set acc (key x) (dict_get acc (key x) 0 + val x)
                                else acc) acc xs) =
         map_of (foldl (\<lambda>acc x. if P x then dict_set acc (key x) (dict_get acc (key x) 0 + val x)
                                else acc) acc ys)"
proof
  fix k
  have s: "set xs = set ys" using assms by (rule mset_eq_setD)
  show "map_of (foldl (\<lambda>acc x. if P x then dict_set acc (key x) (dict_get acc (key x) 0 + val x)
                                else acc) acc xs) k =
         map_of (foldl (\<lambda>acc x. if P x then dict_set acc (key x) (dict_get acc (key x) 0 + val x)
                                else acc) acc ys) k"
    unfolding foldl_dict_add s
    using sum_list_filter_mset [OF assms, of val "\<lambda>x. P x \<and> key x = k"] by auto
qed

lemma segment_count_perm:
  assumes "mset dsegs = mset dsegs'"
  shows "map_of (segment_count (gather_stats dsegs)) = map_of (segment_count (gather_stats dsegs'))"
  unfolding gather_stats_def segment_count_foldl
  using assms by (rule foldl_dict_add_perm)

lemma map_of_init_texts:
  "map_of (map (\<lambda>sp. (sp, [])) tops) sp = (if sp \<in> set tops then Some [] else None)"
  by (induction tops) auto

lemma foldl_collect_text:
  "map_of (foldl (collect_text dsegs) acc tsegs) sp =
     (case map_of acc sp of
        None \<Rightarrow> None
      | Some ts \<Rightarrow> Some (ts @ map (\<lambda>t. py_strip (tseg_text t))
            (filter (\<lambda>t. max_key (speaker_overlap t dsegs) = Some sp) tsegs)))"
proof (induction tsegs arbitrary: acc)
  case Nil
  then show ?case by (simp split: option.split)
next
  case (Cons t ts)
  have step: "map_of (collect_text dsegs acc t) sp =
      (case map_of acc sp of
         None \<Rightarrow> None
       | Some xs \<Rightarrow> Some (xs @ (if max_key (speaker_overlap t dsegs) = Some sp
                                 then [py_strip (tseg_text t)] else [])))"
    by (auto simp: collect_text_def map_of_dict_set split: option.splits)
  show ?case
    by (simp add: Cons.IH step split: option.split)
qed

lemma candidate_texts:
  "dict_get (speaker_texts dsegs tsegs tops) sp [] =
     (if sp \<in> set tops
      then map (\<lambda>t. py_strip (tseg_text t))
             (filter (\<lambda>t. max_key (speaker_overlap t dsegs) = Some sp) tsegs)
      else [])"
  by (simp add: dict_get_def speaker_texts_def foldl_collect_text map_of_init_texts)

lemma candidate_texts_perm:
  assumes "mset tsegs = mset tsegs'"
  shows "mset (dict_get (speaker_texts dsegs tsegs tops) sp [])
       = mset (dict_get (speaker_texts dsegs tsegs' tops) sp [])"
proof -
  have "mset (map (\<lambda>t. py_strip (tseg_text t))
            (filter (\<lambda>t. max_key (speaker_overlap t dsegs) = Some sp) tsegs))
      = image_mset (\<lambda>t. py_strip (tseg_text t))
            (filter_mset (\<lambda>t. max_key (speaker_overlap t dsegs) = Some sp) (mset tsegs'))"
    unfolding mset_map mset_filter assms ..
  then show ?thesis
    by (simp add: candidate_texts)
qed

lemma length_filter_mset:
  "mset xs = mset ys \<Longrightarrow> length (filter P xs) = length (filter P ys)"
  by (metis mset_filter size_mset)

lemma short_responses_mset:
  assumes "mset texts = mset texts'"
  shows "short_responses texts = short_responses texts'"
  unfolding short_responses_def sum_list_triv
  by (simp add: length_filter_mset [OF assms])

lemma short_segments_mset:
  assumes "mset texts = mset texts'"
  shows "short_segments texts = short_segments texts'"
  unfolding short_segments_def sum_list_triv
  by (simp add: length_filter_mset [OF assms])

lemma signal5_mset:
  assumes "mset texts = mset texts'"
  shows "signal5_avg_words texts score = signal5_avg_words texts' score"
proof -
  have len: "length texts = length texts'"
    using assms by (rule mset_eq_length)
  have "sum_list (map (\<lambda>t. length (py_split t)) texts)
      = sum_mset (image_mset (\<lambda>t. length (py_split t)) (mset texts))"
    by (metis mset_map sum_mset_sum_list)
  also have "\<dots> = sum_list (map (\<lambda>t. length (py_split t)) texts')"
    unfolding assms by (metis mset_map sum_mset_sum_list)
  finally have sum: "sum_list (map (\<lambda>t. length (py_split t)) texts)
      = sum_list (map (\<lambda>t. length (py_split t)) texts')" .
  have ne: "(texts \<noteq> []) = (texts' \<noteq> [])"
    using len by auto
  show ?thesis
    by (simp only: signal5_avg_words_def len sum ne)
qed


lemma foldl_dict_add_keys:
  fixes val :: "'a \<Rightarrow> 'v::monoid_add"
  shows "fst ` set (foldl (\<lambda>acc x. if P x then dict_set acc (key x) (dict_get acc (key x) 0 + val x)
                                else acc) acc xs)
       = fst ` set acc \<union> key ` {x \<in> set xs. P x}"
proof -
  let ?d = "foldl (\<lambda>acc x. if P x then dict_set acc (key x) (dict_get acc (key x) 0 + val x)
                                else acc) acc xs"
  have "dom (map_of ?d) = dom (map_of acc) \<union> key ` {x \<in> set xs. P x}"
    by (auto simp: dom_def foldl_dict_add)
  then show ?thesis
    by (simp only: dom_map_of_conv_image_fst)
qed

lemma speaking_time_keys:
  "fst ` set (speaking_time (gather_stats dsegs)) = dseg_speaker ` set dsegs"
  unfolding gather_stats_def speaking_time_foldl foldl_dict_add_keys by simp

lemma speaker_overlap_keys:
  "fst ` set (speaker_overlap t dsegs) =
     dseg_speaker ` {d \<in> set dsegs.
        0 < overlap (tseg_start t) (tseg_end t) (dseg_start d) (dseg_end d)}"
  unfolding speaker_overlap_foldl foldl_dict_add_keys by simp

text \<open>
  With the same numbers of matching agent phrases, texts that are the same up to their
  order give the same score and the same single-speaker role.
\<close>

lemma count_distinct_is_count:
  "count_distinct_phrase_matches text patterns = count_phrase_matches text patterns"
  by (simp add: count_distinct_phrase_matches_def count_phrase_matches_def)

lemma score_speaker_mset:
  assumes texts: "mset texts = mset texts'"
    and phrases: "count_phrase_matches (all_text texts) AGENT_PHRASES
                = count_phrase_matches (all_text texts') AGENT_PHRASES"
  shows "score_speaker st sp time_sp texts = score_speaker st sp time_sp texts'"
proof -
  have s1: "signal1_agent_phrases texts x = signal1_agent_phrases texts' x" for x
    by (simp add: signal1_agent_phrases_def phrases)
  have s2: "signal2_short_responses texts x = signal2_short_responses texts' x" for x
    by (simp add: signal2_short_responses_def short_responses_mset [OF texts])
  have s3: "signal3_short_segments texts x = signal3_short_segments texts' x" for x
    by (simp add: signal3_short_segments_def short_segments_mset [OF texts])
  have s5: "signal5_avg_words texts x = signal5_avg_words texts' x" for x
    by (rule signal5_mset [OF texts])
  have s6: "signal6_diversity texts x = signal6_diversity texts' x" for x
    by (simp add: signal6_diversity_def count_distinct_is_count phrases)
  show ?thesis
    by (simp only: score_speaker_def s1 s2 s3 s5 s6)
qed

lemma single_speaker_role_mset:
  assumes texts: "mset texts = mset texts'"
    and phrases: "count_phrase_matches (all_text texts) AGENT_PHRASES
                = count_phrase_matches (all_text texts') AGENT_PHRASES"
  shows "single_speaker_role texts = single_speaker_role texts'"
proof -
  have "length texts = length texts'"
    using texts by (rule mset_eq_length)
  then show ?thesis
    by (simp only: single_speaker_role_def phrases short_segments_mset [OF texts])
qed

lemma speaker_scores_perm:
  assumes ts: "mset tsegs = mset tsegs'"
    and phrases: "\<forall>sp \<in> fst ` set (top_speakers (speaking_time (gather_stats dsegs))).
        count_phrase_matches
          (all_text (dict_get (speaker_texts dsegs tsegs
             (map fst (top_speakers (speaking_time (gather_stats dsegs)))) ) sp []))
          AGENT_PHRASES
      = count_phrase_matches
          (all_text (dict_get (speaker_texts dsegs tsegs'
             (map fst (top_speakers (speaking_time (gather_stats dsegs)))) ) sp []))
          AGENT_PHRASES"
  shows "speaker_scores dsegs tsegs = speaker_scores dsegs tsegs'"
proof -
  let ?st = "gather_stats dsegs"
  let ?tops = "top_speakers (speaking_time ?st)"
  let ?T = "\<lambda>tsegs sp. dict_get (speaker_texts dsegs tsegs (map fst ?tops)) sp []"
  have "score_speaker ?st sp time_sp (?T tsegs sp) = score_speaker ?st sp time_sp (?T tsegs' sp)"
    if "(sp, time_sp) \<in> set ?tops" for sp time_sp
  proof -
    from that have "sp \<in> fst ` set ?tops" by force
    with phrases have "count_phrase_matches (all_text (?T tsegs sp)) AGENT_PHRASES
        = count_phrase_matches (all_text (?T tsegs' sp)) AGENT_PHRASES"
      by blast
    with candidate_texts_perm [OF ts, of dsegs "map fst ?tops" sp] show ?thesis
      by (rule score_speaker_mset)
  qed
  then have "map (\<lambda>(sp, time_sp). (sp, score_speaker ?st sp time_sp (?T tsegs sp))) ?tops
      = map (\<lambda>(sp, time_sp). (sp, score_speaker ?st sp time_sp (?T tsegs' sp))) ?tops"
    by (intro map_cong) auto
  then show ?thesis
    by (simp add: speaker_scores_def Let_def)
qed

lemma speaker_scores_fst:
  "map fst (speaker_scores dsegs tsegs)
     = map fst (top_speakers (speaking_time (gather_stats dsegs)))"
  by (simp add: speaker_scores_def Let_def comp_def case_prod_unfold)

lemma label_speakers_smart_perm:
  assumes ts: "mset tsegs = mset tsegs'"
    and phrases: "\<forall>sp \<in> fst ` set (top_speakers (speaking_time (gather_stats dsegs))).
        count_phrase_matches
          (all_text (dict_get (speaker_texts dsegs tsegs
             (map fst (top_speakers (speaking_time (gather_stats dsegs)))) ) sp []))
          AGENT_PHRASES
      = count_phrase_matches
          (all_text (dict_get (speaker_texts dsegs tsegs'
             (map fst (top_speakers (speaking_time (gather_stats dsegs)))) ) sp []))
          AGENT_PHRASES"
  shows "label_speakers_smart dsegs tsegs = label_speakers_smart dsegs tsegs'"
proof -
  let ?tops = "top_speakers (speaking_time (gather_stats dsegs))"
  let ?T = "\<lambda>tsegs sp. dict_get (speaker_texts dsegs tsegs (map fst ?tops)) sp []"
  note scores = speaker_scores_perm [OF ts phrases]
  have single: "single_speaker_role (?T tsegs sp) = single_speaker_role (?T tsegs' sp)"
    if "speaker_scores dsegs tsegs' = [(sp, score)]" for sp score
  proof -
    from that have "map fst ?tops = [sp]"
      using speaker_scores_fst [of dsegs tsegs'] by simp
    then have "sp \<in> fst ` set ?tops"
      by (metis list.set_intros(1) set_map)
    with phrases have "count_phrase_matches (all_text (?T tsegs sp)) AGENT_PHRASES
        = count_phrase_matches (all_text (?T tsegs' sp)) AGENT_PHRASES"
      by blast
    with candidate_texts_perm [OF ts, of dsegs "map fst ?tops" sp] show ?thesis
      by (rule single_speaker_role_mset)
  qed
  show ?thesis
  proof (cases "speaker_scores dsegs tsegs'")
    case Nil
    then show ?thesis
      by (simp add: label_speakers_smart_def scores Let_def)
  next
    case (Cons p ps)
    obtain sp score where p: "p = (sp, score)" by (cases p)
    show ?thesis
    proof (cases ps)
      case Nil
      with Cons p have one: "speaker_scores dsegs tsegs' = [(sp, score)]" by simp
      show ?thesis
        by (simp add: label_speakers_smart_def scores one Let_def single [OF one])
    next
      case (Cons q qs)
      with \<open>speaker_scores dsegs tsegs' = p # ps\<close> show ?thesis
        by (simp add: label_speakers_smart_def scores Let_def)
    qed
  qed
qed

text \<open>
  Claim C4, amended. What does not depend on the order of the input lists. Permuting
  the diarization list leaves the set of speaker tags, the segment count of every tag
  and, for every transcription segment, the set of tags that overlap it unchanged.
  Permuting the transcription list, the diarization list fixed, leaves every
  candidate's attributed texts the same up to their order, and with them its
  short-response, short-segment and words-per-segment signals; if moreover every
  candidate's concatenated text matches as many agent phrase patterns after the
  permutation as before it, the scores and the roles are the same. No statement here
  compares two sums of durations or overlaps added in different orders.
\<close>

theorem classifier_counts_order_independent:
  "(mset dsegs = mset dsegs' \<longrightarrow>
       fst ` set (speaking_time (gather_stats dsegs))
         = fst ` set (speaking_time (gather_stats dsegs'))
     \<and> map_of (segment_count (gather_stats dsegs))
         = map_of (segment_count (gather_stats dsegs'))
     \<and> fst ` set (speaker_overlap t dsegs) = fst ` set (speaker_overlap t dsegs'))
   \<and> (mset tsegs = mset tsegs' \<longrightarrow>
       mset (dict_get (speaker_texts dsegs tsegs tops) sp [])
         = mset (dict_get (speaker_texts dsegs tsegs' tops) sp [])
     \<and> signal2_short_responses (dict_get (speaker_texts dsegs tsegs tops) sp []) score
         = signal2_short_responses (dict_get (speaker_texts dsegs tsegs' tops) sp []) score
     \<and> signal3_short_segments (dict_get (speaker_texts dsegs tsegs tops) sp []) score
         = signal3_short_segments (dict_get (speaker_texts dsegs tsegs' tops) sp []) score
     \<and> signal5_avg_words (dict_get (speaker_texts dsegs tsegs tops) sp []) score
         = signal5_avg_words (dict_get (speaker_texts dsegs tsegs' tops) sp []) score
     \<and> ((\<forall>sp \<in> fst ` set (top_speakers (speaking_time (gather_stats dsegs))).
            count_phrase_matches
              (all_text (dict_get (speaker_texts dsegs tsegs
                 (map fst (top_speakers (speaking_time (gather_stats dsegs))))) sp []))
              AGENT_PHRASES
          = count_phrase_matches
              (all_text (dict_get (speaker_texts dsegs tsegs'
                 (map fst (top_speakers (speaking_time (gather_stats dsegs))))) sp []))
              AGENT_PHRASES) \<longrightarrow>
           speaker_scores dsegs tsegs = speaker_scores dsegs tsegs'
         \<and> label_speakers_smart dsegs tsegs = label_speakers_smart dsegs tsegs'))"
proof (intro conjI impI)
  assume d: "mset dsegs = mset dsegs'"
  then have s: "set dsegs = set dsegs'" by (rule mset_eq_setD)
  show "fst ` set (speaking_time (gather_stats dsegs))
         = fst ` set (speaking_time (gather_stats dsegs'))"
    by (simp only: speaking_time_keys s)
  show "map_of (segment_count (gather_stats dsegs))
         = map_of (segment_count (gather_stats dsegs'))"
    using d by (rule segment_count_perm)
  show "fst ` set (speaker_overlap t dsegs) = fst ` set (speaker_overlap t dsegs')"
    by (simp only: speaker_overlap_keys s)
next
  assume ts: "mset tsegs = mset tsegs'"
  note texts = candidate_texts_perm [OF ts, of dsegs tops sp]
  show "mset (dict_get (speaker_texts dsegs tsegs tops) sp [])
         = mset (dict_get (speaker_texts dsegs tsegs' tops) sp [])"
    by (rule texts)
  show "signal2_short_responses (dict_get (speaker_texts dsegs tsegs tops) sp []) score
         = signal2_short_responses (dict_get (speaker_texts dsegs tsegs' tops) sp []) score"
    by (simp only: signal2_short_responses_def short_responses_mset [OF texts])
  show "signal3_short_segments (dict_get (speaker_texts dsegs tsegs tops) sp []) score
         = signal3_short_segments (dict_get (speaker_texts dsegs tsegs' tops) sp []) score"
    by (simp only: signal3_short_segments_def short_segments_mset [OF texts])
  show "signal5_avg_words (dict_get (speaker_texts dsegs tsegs tops) sp []) score
         = signal5_avg_words (dict_get (speaker_texts dsegs tsegs' tops) sp []) score"
    by (rule signal5_mset [OF texts])
next
  assume ts: "mset tsegs = mset tsegs'"
    and phrases: "\<forall>sp \<in> fst ` set (top_speakers (speaking_time (gather_stats dsegs))).
            count_phrase_matches
              (all_text (dict_get (speaker_texts dsegs tsegs
                 (map fst (top_speakers (speaking_time (gather_stats dsegs))))) sp []))
              AGENT_PHRASES
          = count_phrase_matches
              (all_text (dict_get (speaker_texts dsegs tsegs'
                 (map fst (top_speakers (speaking_time (gather_stats dsegs))))) sp []))
              AGENT_PHRASES"
  show "speaker_scores dsegs tsegs = speaker_scores dsegs tsegs'"
    using ts phrases by (rule speaker_scores_perm)
next
  assume ts: "mset tsegs = mset tsegs'"
    and phrases: "\<forall>sp \<in> fst ` set (top_speakers (speaking_time (gather_stats dsegs))).
            count_phrase_matches
              (all_text (dict_get (speaker_texts dsegs tsegs
                 (map fst (top_speakers (speaking_time (gather_stats dsegs))))) sp []))
              AGENT_PHRASES
          = count_phrase_matches
              (all_text (dict_get (speaker_texts dsegs tsegs'
                 (map fst (top_speakers (speaking_time (gather_stats dsegs))))) sp []))
              AGENT_PHRASES"
  show "label_speakers_smart dsegs tsegs = label_speakers_smart dsegs tsegs'"
    using ts phrases by (rule label_speakers_smart_perm)
qed

text \<open>
  Speaker X holds [0, 3] and [5, 8], speaker Y [3, 5]; X says ``rabat'' and ``tak''.
  Either order of the two segments matches one agent phrase, and the scores are the same.
\<close>

theorem classifier_counts_order_independent_witness:
  "mset [dseg_of ''X'' 0 3, dseg_of ''Y'' 3 5, dseg_of ''X'' 5 8]
     = mset [dseg_of ''X'' 5 8, dseg_of ''Y'' 3 5, dseg_of ''X'' 0 3]
   \<and> mset [tseg_of ''rabat'' 0 3, tseg_of ''tak'' 5 8]
     = mset [tseg_of ''tak'' 5 8, tseg_of ''rabat'' 0 3]
   \<and> top_speakers (speaking_time
        (gather_stats [dseg_of ''X'' 0 3, dseg_of ''Y'' 3 5, dseg_of ''X'' 5 8]))
     = [(''X'', 6), (''Y'', 2)]
   \<and> count_phrase_matches (all_text [''rabat'', ''tak'']) AGENT_PHRASES = 1
   \<and> count_phrase_matches (all_text [''tak'', ''rabat'']) AGENT_PHRASES = 1
   \<and> dict_get (speaker_texts [dseg_of ''X'' 0 3, dseg_of ''Y'' 3 5, dseg_of ''X'' 5 8]
        [tseg_of ''rabat'' 0 3, tseg_of ''tak'' 5 8] [''X'', ''Y'']) ''X'' [] = [''rabat'', ''tak'']
   \<and> dict_get (speaker_texts [dseg_of ''X'' 0 3, dseg_of ''Y'' 3 5, dseg_of ''X'' 5 8]
        [tseg_of ''tak'' 5 8, tseg_of ''rabat'' 0 3] [''X'', ''Y'']) ''X'' [] = [''tak'', ''rabat'']
   \<and> dict_get (speaker_texts [dseg_of ''X'' 0 3, dseg_of ''Y'' 3 5, dseg_of ''X'' 5 8]
        [tseg_of ''rabat'' 0 3, tseg_of ''tak'' 5 8] [''X'', ''Y'']) ''Y'' [] = []
   \<and> dict_get (speaker_texts [dseg_of ''X'' 0 3, dseg_of ''Y'' 3 5, dseg_of ''X'' 5 8]
        [tseg_of ''tak'' 5 8, tseg_of ''rabat'' 0 3] [''X'', ''Y'']) ''Y'' [] = []
   \<and> map_of (segment_count
        (gather_stats [dseg_of ''X'' 5 8, dseg_of ''Y'' 3 5, dseg_of ''X'' 0 3]))
     = map_of [(''X'', 2), (''Y'', 1)]
   \<and> speaker_scores [dseg_of ''X'' 0 3, dseg_of ''Y'' 3 5, dseg_of ''X'' 5 8]
        [tseg_of ''tak'' 5 8, tseg_of ''rabat'' 0 3] = [(''X'', 1 / 2), (''Y'', 0)]
   \<and> label_speakers_smart [dseg_of ''X'' 0 3, dseg_of ''Y'' 3 5, dseg_of ''X'' 5 8]
        [tseg_of ''tak'' 5 8, tseg_of ''rabat'' 0 3] = [(''X'', Agent), (''Y'', Customer)]"
proof -
  let ?dsegs = "[dseg_of ''X'' 0 3, dseg_of ''Y'' 3 5, dseg_of ''X'' 5 8]"
  let ?dsegs' = "[dseg_of ''X'' 5 8, dseg_of ''Y'' 3 5, dseg_of ''X'' 0 3]"
  let ?tsegs = "[tseg_of ''rabat'' 0 3, tseg_of ''tak'' 5 8]"
  let ?tsegs' = "[tseg_of ''tak'' 5 8, tseg_of ''rabat'' 0 3]"
  have d: "mset ?dsegs = mset ?dsegs'"
    by simp
  have t: "mset ?tsegs = mset ?tsegs'"
    by simp
  have tops: "top_speakers (speaking_time (gather_stats ?dsegs)) = [(''X'', 6), (''Y'', 2)]"
    by code_simp
  have x1: "dict_get (speaker_texts ?dsegs ?tsegs [''X'', ''Y'']) ''X'' [] = [''rabat'', ''tak'']"
    by code_simp
  have x2: "dict_get (speaker_texts ?dsegs ?tsegs' [''X'', ''Y'']) ''X'' [] = [''tak'', ''rabat'']"
    by code_simp
  have y1: "dict_get (speaker_texts ?dsegs ?tsegs [''X'', ''Y'']) ''Y'' [] = []"
    by code_simp
  have y2: "dict_get (speaker_texts ?dsegs ?tsegs' [''X'', ''Y'']) ''Y'' [] = []"
    by code_simp
  have c1: "count_phrase_matches (all_text [''rabat'', ''tak'']) AGENT_PHRASES = 1"
    by code_simp
  have c2: "count_phrase_matches (all_text [''tak'', ''rabat'']) AGENT_PHRASES = 1"
    by code_simp
  have phrases: "\<forall>sp \<in> fst ` set (top_speakers (speaking_time (gather_stats ?dsegs))).
        count_phrase_matches
          (all_text (dict_get (speaker_texts ?dsegs ?tsegs
             (map fst (top_speakers (speaking_time (gather_stats ?dsegs)))))
             sp []))
          AGENT_PHRASES
      = count_phrase_matches
          (all_text (dict_get (speaker_texts ?dsegs ?tsegs'
             (map fst (top_speakers (speaking_time (gather_stats ?dsegs)))))
             sp []))
          AGENT_PHRASES"
    unfolding tops by (simp add: x1 x2 y1 y2 c1 c2)
  have "segment_count (gather_stats ?dsegs) = [(''X'', 2), (''Y'', 1)]"
    by code_simp
  then have count: "map_of (segment_count (gather_stats ?dsegs))
      = map_of [(''X'', 2), (''Y'', 1)]"
    by (simp only:)
  have scores: "speaker_scores ?dsegs ?tsegs = [(''X'', 1 / 2), (''Y'', 0)]"
    by code_simp
  have roles: "label_speakers_smart ?dsegs ?tsegs = [(''X'', Agent), (''Y'', Customer)]"
    by code_simp
  note inst = classifier_counts_order_independent
      [of ?dsegs ?dsegs' "tseg_of ''rabat'' 0 3" ?tsegs ?tsegs' "[''X'', ''Y'']" "''X''" 0]
  from inst d have "map_of (segment_count (gather_stats ?dsegs'))
      = map_of (segment_count (gather_stats ?dsegs))"
    by simp
  with count have count': "map_of (segment_count (gather_stats ?dsegs'))
      = map_of [(''X'', 2), (''Y'', 1)]"
    by simp
  from inst t phrases have "speaker_scores ?dsegs ?tsegs = speaker_scores ?dsegs ?tsegs'
      \<and> label_speakers_smart ?dsegs ?tsegs = label_speakers_smart ?dsegs ?tsegs'"
    by blast
  with scores roles have out: "speaker_scores ?dsegs ?tsegs' = [(''X'', 1 / 2), (''Y'', 0)]
      \<and> label_speakers_smart ?dsegs ?tsegs' = [(''X'', Agent), (''Y'', Customer)]"
    by simp
  from d t tops c1 c2 x1 x2 y1 y2 count' out show ?thesis
    by blast
qed

text \<open>
  Claim C4 as stated fails, in three ways. Two tags of equal speaking time and equal
  score swap roles when the diarization list is reversed (the tag met first is the
  agent). The speaks-first bonus goes to the tag whose first segment in list order starts
  earliest, so reversing a diarization list moves 0.5 from X to Y. The phrase signals
  read the texts concatenated in list order: ``w'' then ``cenie'' contains the pattern
  ``w cenie'', ``cenie'' then ``w'' does not.
\<close>

theorem classifier_order_counterexample:
  "mset [dseg_of ''X'' 0 4, dseg_of ''Y'' 0 4] = mset [dseg_of ''Y'' 0 4, dseg_of ''X'' 0 4]
   \<and> label_speakers_smart [dseg_of ''X'' 0 4, dseg_of ''Y'' 0 4] []
       = [(''X'', Agent), (''Y'', Customer)]
   \<and> label_speakers_smart [dseg_of ''Y'' 0 4, dseg_of ''X'' 0 4] []
       = [(''Y'', Agent), (''X'', Customer)]
   \<and> mset [dseg_of ''X'' 0 3, dseg_of ''Y'' 3 5, dseg_of ''X'' 5 8]
       = mset [dseg_of ''X'' 5 8, dseg_of ''Y'' 3 5, dseg_of ''X'' 0 3]
   \<and> speaker_scores [dseg_of ''X'' 0 3, dseg_of ''Y'' 3 5, dseg_of ''X'' 5 8] []
       = [(''X'', 5 / 2), (''Y'', 0)]
   \<and> speaker_scores [dseg_of ''X'' 5 8, dseg_of ''Y'' 3 5, dseg_of ''X'' 0 3] []
       = [(''X'', 2), (''Y'', 1 / 2)]
   \<and> mset [tseg_of ''w'' 0 4, tseg_of ''cenie'' 5 9] = mset [tseg_of ''cenie'' 5 9, tseg_of ''w'' 0 4]
   \<and> speaker_scores [dseg_of ''X'' 0 10, dseg_of ''Y'' 10 20]
         [tseg_of ''w'' 0 4, tseg_of ''cenie'' 5 9] = [(''X'', 1 / 2), (''Y'', 0)]
   \<and> speaker_scores [dseg_of ''X'' 0 10, dseg_of ''Y'' 10 20]
         [tseg_of ''cenie'' 5 9, tseg_of ''w'' 0 4] = [(''X'', - 5 / 2), (''Y'', 0)]"
proof -
  have m1: "mset [dseg_of ''X'' 0 4, dseg_of ''Y'' 0 4] = mset [dseg_of ''Y'' 0 4, dseg_of ''X'' 0 4]"
    by simp
  have m2: "mset [dseg_of ''X'' 0 3, dseg_of ''Y'' 3 5, dseg_of ''X'' 5 8]
       = mset [dseg_of ''X'' 5 8, dseg_of ''Y'' 3 5, dseg_of ''X'' 0 3]"
    by simp
  have m3: "mset [tseg_of ''w'' 0 4, tseg_of ''cenie'' 5 9]
       = mset [tseg_of ''cenie'' 5 9, tseg_of ''w'' 0 4]"
    by simp
  have r1: "label_speakers_smart [dseg_of ''X'' 0 4, dseg_of ''Y'' 0 4] []
       = [(''X'', Agent), (''Y'', Customer)]"
    by code_simp
  have r2: "label_speakers_smart [dseg_of ''Y'' 0 4, dseg_of ''X'' 0 4] []
       = [(''Y'', Agent), (''X'', Customer)]"
    by code_simp
  have s1: "speaker_scores [dseg_of ''X'' 0 3, dseg_of ''Y'' 3 5, dseg_of ''X'' 5 8] []
       = [(''X'', 5 / 2), (''Y'', 0)]"
    by code_simp
  have s2: "speaker_scores [dseg_of ''X'' 5 8, dseg_of ''Y'' 3 5, dseg_of ''X'' 0 3] []
       = [(''X'', 2), (''Y'', 1 / 2)]"
    by code_simp
  have s3: "speaker_scores [dseg_of ''X'' 0 10, dseg_of ''Y'' 10 20]
         [tseg_of ''w'' 0 4, tseg_of ''cenie'' 5 9] = [(''X'', 1 / 2), (''Y'', 0)]"
    by code_simp
  have s4: "speaker_scores [dseg_of ''X'' 0 10, dseg_of ''Y'' 10 20]
         [tseg_of ''cenie'' 5 9, tseg_of ''w'' 0 4] = [(''X'', - 5 / 2), (''Y'', 0)]"
    by code_simp
  show ?thesis
    using m1 m2 m3 r1 r2 s1 s2 s3 s4 by blast
qed


section \<open>Properties of the channel router\<close>

lemma split_stereo_two:
  "channel_streams audio = [left, right] \<Longrightarrow>
   split_stereo audio = Inr (\<lparr> channel_streams = [left] \<rparr>, \<lparr> channel_streams = [right] \<rparr>)"
  by (simp add: split_stereo_def channels_def split_to_mono_def)

lemma split_stereo_many:
  "channels audio > 2 \<Longrightarrow>
   split_stereo audio =
     Inl (ValueError (''Expected stereo audio (2 channels), got '' @ nat_str (channels audio)))"
  by (simp add: split_stereo_def)

lemma stereo_calls:
  "c \<in> set (snd (run_stereo_pipeline env audio)) \<Longrightarrow> \<exists>a. c = Transcribe a"
  by (auto simp: run_stereo_pipeline_def Let_def split: sum.splits prod.splits)

text \<open>
  Claim C5, amended. For a file that exists and decodes: with two or more channels the
  stereo path is taken and it invokes nothing but the recognizer, never the diarizer or
  the role classifier. With exactly two channels, each transcribed without an error, the
  recognizer is run on channel 0 and then on channel 1, the segments of channel 0 are
  labelled agent and those of channel 1 customer, the result holds them sorted by start
  time with the text rendered from them, 2 speakers and the mode stereo. With more than
  two channels the split raises \<^verbatim>\<open>ValueError\<close> before any collaborator is invoked,
  and there is no result.
\<close>

theorem stereo_route:
  assumes ex: "path_exists env audio_path"
    and load: "from_file env audio_path = Inr audio"
  shows "(channels audio \<ge> 2 \<longrightarrow>
            (\<forall>c \<in> set (snd (process env audio_path)). \<exists>a. c = Transcribe a))
    \<and> (channels audio > 2 \<longrightarrow>
         process env audio_path =
           (Inl (ValueError (''Expected stereo audio (2 channels), got ''
                   @ nat_str (channels audio))), []))
    \<and> (\<forall>left right agent_result customer_result.
          channel_streams audio = [left, right]
          \<and> transcribe env \<lparr> channel_streams = [left] \<rparr> = Inr agent_result
          \<and> transcribe env \<lparr> channel_streams = [right] \<rparr> = Inr customer_result
          \<longrightarrow> (\<exists>res. process env audio_path =
                  (Inr res, [Transcribe \<lparr> channel_streams = [left] \<rparr>,
                             Transcribe \<lparr> channel_streams = [right] \<rparr>])
                \<and> pr_segments res = sort_key al_start
                    (map (channel_segment Agent) (tres_segments agent_result)
                     @ map (channel_segment Customer) (tres_segments customer_result))
                \<and> sorted (map al_start (pr_segments res))
                \<and> pr_full_text res = build_full_text (pr_segments res)
                \<and> pr_num_speakers res = 2
                \<and> pr_channel_mode res = Stereo))"
proof (intro conjI impI allI)
  assume "channels audio \<ge> 2"
  then have "process env audio_path = run_stereo_pipeline env audio"
    using ex load by (simp add: process_def)
  then show "\<forall>c \<in> set (snd (process env audio_path)). \<exists>a. c = Transcribe a"
    using stereo_calls by auto
next
  assume many: "channels audio > 2"
  then have "process env audio_path = run_stereo_pipeline env audio"
    using ex load by (simp add: process_def)
  then show "process env audio_path =
      (Inl (ValueError (''Expected stereo audio (2 channels), got ''
              @ nat_str (channels audio))), [])"
    by (simp add: run_stereo_pipeline_def split_stereo_many [OF many])
next
  fix left right agent_result customer_result
  assume h: "channel_streams audio = [left, right]
          \<and> transcribe env \<lparr> channel_streams = [left] \<rparr> = Inr agent_result
          \<and> transcribe env \<lparr> channel_streams = [right] \<rparr> = Inr customer_result"
  then have "channels audio = 2"
    by (simp add: channels_def)
  then have "process env audio_path = run_stereo_pipeline env audio"
    using ex load by (simp add: process_def)
  then show "\<exists>res. process env audio_path =
                  (Inr res, [Transcribe \<lparr> channel_streams = [left] \<rparr>,
                             Transcribe \<lparr> channel_streams = [right] \<rparr>])
                \<and> pr_segments res = sort_key al_start
                    (map (channel_segment Agent) (tres_segments agent_result)
                     @ map (channel_segment Customer) (tres_segments customer_result))
                \<and> sorted (map al_start (pr_segments res))
                \<and> pr_full_text res = build_full_text (pr_segments res)
                \<and> pr_num_speakers res = 2
                \<and> pr_channel_mode res = Stereo"
    using h by (simp add: run_stereo_pipeline_def split_stereo_two Let_def)
qed

text \<open>
  Scenario D: two channels. The agent turns at 0 and 5 and the customer turn at 2 are
  merged in the order of their start times.
\<close>

theorem stereo_route_witness:
  "path_exists (sample_env stereo_audio) ''/in/call.wav''
   \<and> from_file (sample_env stereo_audio) ''/in/call.wav'' = Inr stereo_audio
   \<and> channels stereo_audio = 2
   \<and> process (sample_env stereo_audio) ''/in/call.wav'' =
      (Inr \<lparr> pr_segments =
               [\<lparr> al_speaker = Agent, al_text = ''dzien dobry'', al_start = 0, al_end = 2,
                  al_confidence = None \<rparr>,
                \<lparr> al_speaker = Customer, al_text = ''tak'', al_start = 2, al_end = 3,
                  al_confidence = None \<rparr>,
                \<lparr> al_speaker = Agent, al_text = ''rabat'', al_start = 5, al_end = 6,
                  al_confidence = None \<rparr>],
             pr_full_text = ''[Agent] dzien dobry'' @ [CHR 0x0A] @ ''[Customer] tak''
                            @ [CHR 0x0A] @ ''[Agent] rabat'',
             pr_language = ''pl'', pr_duration = 7, pr_num_speakers = 2,
             pr_channel_mode = Stereo, pr_raw_transcription = None,
             pr_raw_diarization = None \<rparr>,
       [Transcribe \<lparr> channel_streams = [[1, 2]] \<rparr>, Transcribe \<lparr> channel_streams = [[3, 4]] \<rparr>])"
proof -
  have ex: "path_exists (sample_env stereo_audio) ''/in/call.wav''"
    by (simp add: sample_env_def)
  have load: "from_file (sample_env stereo_audio) ''/in/call.wav'' = Inr stereo_audio"
    by (simp add: sample_env_def)
  have two: "channels stereo_audio = 2"
    by (simp add: channels_def stereo_audio_def)
  have run: "process (sample_env stereo_audio) ''/in/call.wav'' =
      (Inr \<lparr> pr_segments =
               [\<lparr> al_speaker = Agent, al_text = ''dzien dobry'', al_start = 0, al_end = 2,
                  al_confidence = None \<rparr>,
                \<lparr> al_speaker = Customer, al_text = ''tak'', al_start = 2, al_end = 3,
                  al_confidence = None \<rparr>,
                \<lparr> al_speaker = Agent, al_text = ''rabat'', al_start = 5, al_end = 6,
                  al_confidence = None \<rparr>],
             pr_full_text = ''[Agent] dzien dobry'' @ [CHR 0x0A] @ ''[Customer] tak''
                            @ [CHR 0x0A] @ ''[Agent] rabat'',
             pr_language = ''pl'', pr_duration = 7, pr_num_speakers = 2,
             pr_channel_mode = Stereo, pr_raw_transcription = None,
             pr_raw_diarization = None \<rparr>,
       [Transcribe \<lparr> channel_streams = [[1, 2]] \<rparr>, Transcribe \<lparr> channel_streams = [[3, 4]] \<rparr>])"
    by code_simp
  show ?thesis
    using stereo_route [OF ex load] ex load two run by blast
qed

text \<open>
  Claim C5 as stated fails for three channels: the router takes the stereo path, the
  split raises, and the pipeline has no result at all.
\<close>

theorem three_channels_counterexample:
  "channels three_channel_audio = 3
   \<and> path_exists (sample_env three_channel_audio) ''/in/call.wav''
   \<and> from_file (sample_env three_channel_audio) ''/in/call.wav'' = Inr three_channel_audio
   \<and> process (sample_env three_channel_audio) ''/in/call.wav'' =
       (Inl (ValueError ''Expected stereo audio (2 channels), got 3''), [])"
  by code_simp


section \<open>Properties of the recording lifecycle\<close>

lemma add_segments_frame:
  "add_segments fault tid k segs db = r \<Longrightarrow>
   (case r of Inl (e, db') \<Rightarrow> recordings db' = recordings db \<and> transcripts db' = transcripts db
                \<and> (\<exists>ss. segments db' = segments db @ ss)
    | Inr db' \<Rightarrow> recordings db' = recordings db \<and> transcripts db' = transcripts db
                \<and> (\<exists>ss. segments db' = segments db @ ss))"
proof (induction segs arbitrary: k db r)
  case Nil
  then show ?case by auto
next
  case (Cons seg segs)
  show ?case
  proof (cases "fault (AddSegment k)")
    case (Some e)
    then show ?thesis using Cons.prems by auto
  next
    case None
    let ?db = "db\<lparr> segments := segments db @
                   [new_segment (next_id (map seg_id (segments db))) tid seg] \<rparr>"
    have "add_segments fault tid (Suc k) segs ?db = r"
      using Cons.prems None by simp
    from Cons.IH [OF this] show ?thesis
      by (auto split: sum.splits prod.splits)
  qed
qed

lemma add_segments_Inr:
  "add_segments fault tid k segs db = Inr db' \<Longrightarrow>
   recordings db' = recordings db \<and> transcripts db' = transcripts db
   \<and> (\<exists>ss. segments db' = segments db @ ss)"
  using add_segments_frame [of fault tid k segs db "Inr db'"] by simp

lemma update_recording_tables:
  "transcripts (update_recording rid f db) = transcripts db"
  "segments (update_recording rid f db) = segments db"
  "recordings (update_recording rid f db)
     = map (\<lambda>r. if rec_id r = rid then f r else r) (recordings db)"
  by (simp_all add: update_recording_def)

lemma update_recording_keys:
  assumes "\<And>r. rec_id (f r) = rec_id r \<and> rec_filepath (f r) = rec_filepath r"
  shows "map (\<lambda>r. (rec_id r, rec_filepath r)) (recordings (update_recording rid f db))
       = map (\<lambda>r. (rec_id r, rec_filepath r)) (recordings db)"
  using assms by (simp add: update_recording_def)

text \<open>
  The outcomes of the \<^verbatim>\<open>try\<close> block. It raises with the committed state still that
  of the pending or of the processing recording; or it has made its final commit, whose
  state holds the old rows with the new ones behind them, and then returns or, if the
  read of the key raises, raises.
\<close>

lemma try_block_outcome:
  "(\<exists>e s. try_block fault env now p rid (open_session db1) = Inl (e, s)
       \<and> (committed s = db1
          \<or> committed s = update_recording rid (\<lambda>r. r\<lparr> rec_status := Processing \<rparr>) db1))
   \<or> (\<exists>s ts ss.
         (try_block fault env now p rid (open_session db1) = Inr s
          \<or> (\<exists>e. fault ReadKeyDone = Some e
                \<and> try_block fault env now p rid (open_session db1) = Inl (e, s)))
       \<and> map (\<lambda>r. (rec_id r, rec_filepath r)) (recordings (committed s))
           = map (\<lambda>r. (rec_id r, rec_filepath r)) (recordings db1)
       \<and> transcripts (committed s) = transcripts db1 @ ts
       \<and> segments (committed s) = segments db1 @ ss)"
proof (cases "fault CommitProcessing")
  case (Some e')
  then show ?thesis
    by (auto simp: try_block_def open_session_def Let_def)
next
  case None
  let ?P = "update_recording rid (\<lambda>r. r\<lparr> rec_status := Processing \<rparr>) db1"
  show ?thesis
  proof (cases "fst (process env p)")
    case (Inl e')
    then show ?thesis
      using None by (auto simp: try_block_def open_session_def commit_def Let_def)
  next
    case (Inr result)
    show ?thesis
    proof (cases "fault ReadKeyProcessing")
      case (Some e')
      then show ?thesis
        using None Inr by (auto simp: try_block_def open_session_def commit_def Let_def)
    next
      case nokey: None
      show ?thesis
      proof (cases "fault FlushTranscript")
      case (Some e')
      then show ?thesis
        using None Inr nokey by (auto simp: try_block_def open_session_def commit_def Let_def)
    next
      case noflush: None
      let ?tid = "next_id (map tr_id (transcripts db1))"
      let ?db3 = "?P\<lparr> transcripts := transcripts db1 @
                  [\<lparr> tr_id = ?tid, tr_recording_id = rid,
                     tr_full_text = Some (pr_full_text result),
                     tr_language = Some (pr_language result),
                     tr_model_used = None \<rparr>] \<rparr>"
      let ?done = "\<lambda>db4. update_recording rid
                               (\<lambda>r. r\<lparr> rec_status := Done,
                                    rec_duration_seconds := Some (pr_duration result),
                                    rec_processed_at := Some now \<rparr>) db4"
      have unfold: "try_block fault env now p rid (open_session db1) =
          (case add_segments fault ?tid 0 (pr_segments result) ?db3 of
             Inl (e, db) \<Rightarrow> Inl (e, \<lparr> committed = ?P, working = db \<rparr>)
           | Inr db4 \<Rightarrow>
               (case fault CommitDone of
                  Some e \<Rightarrow> Inl (e, \<lparr> committed = ?P, working = ?done db4 \<rparr>)
                | None \<Rightarrow>
                    (case fault ReadKeyDone of
                       Some e \<Rightarrow> Inl (e, \<lparr> committed = ?done db4, working = ?done db4 \<rparr>)
                     | None \<Rightarrow> Inr \<lparr> committed = ?done db4, working = ?done db4 \<rparr>)))"
        using None Inr nokey noflush
        by (simp add: try_block_def open_session_def commit_def Let_def update_recording_def
              split: sum.splits prod.splits option.splits)
      show ?thesis
      proof (cases "add_segments fault ?tid 0 (pr_segments result) ?db3")
        case (Inl a)
        obtain e db where "a = (e, db)" by (cases a)
        with Inl show ?thesis unfolding unfold by simp
      next
        case seg: (Inr db4)
        from add_segments_Inr [OF seg] have
          "recordings db4 = recordings ?P"
          by (simp add: update_recording_def)
        then have keys: "map (\<lambda>r. (rec_id r, rec_filepath r)) (recordings (?done db4))
           = map (\<lambda>r. (rec_id r, rec_filepath r)) (recordings db1)"
          by (simp add: update_recording_keys)
        from add_segments_Inr [OF seg] obtain ss where
          tabs: "transcripts (?done db4) = transcripts db1 @
                  [\<lparr> tr_id = ?tid, tr_recording_id = rid,
                     tr_full_text = Some (pr_full_text result),
                     tr_language = Some (pr_language result),
                     tr_model_used = None \<rparr>]"
            "segments (?done db4) = segments db1 @ ss"
          by (auto simp: update_recording_def)
        show ?thesis
        proof (cases "fault CommitDone")
          case (Some e)
          with seg show ?thesis unfolding unfold by simp
        next
          case nodone: None
          show ?thesis
          proof (cases "fault ReadKeyDone")
            case None
            with seg nodone tabs keys show ?thesis unfolding unfold by simp
          next
            case (Some e)
            with seg nodone tabs keys show ?thesis unfolding unfold by simp
          qed
        qed
      qed
    qed
    qed
  qed
qed


lemma try_block_appends:
  assumes "try_block fault env now p rid (open_session db1) = Inl (e, s)
         \<or> try_block fault env now p rid (open_session db1) = Inr s"
  shows "\<exists>ts ss. transcripts (committed s) = transcripts db1 @ ts
               \<and> segments (committed s) = segments db1 @ ss"
proof -
  from try_block_outcome [of fault env now p rid db1] assms
  consider "committed s = db1"
    | "committed s = update_recording rid (\<lambda>r. r\<lparr> rec_status := Processing \<rparr>) db1"
    | "\<exists>ts ss. transcripts (committed s) = transcripts db1 @ ts
               \<and> segments (committed s) = segments db1 @ ss"
    by auto
  then show ?thesis
  proof cases
    case 1
    then have "transcripts (committed s) = transcripts db1 @ []
        \<and> segments (committed s) = segments db1 @ []"
      by simp
    then show ?thesis by blast
  next
    case 2
    then have "transcripts (committed s) = transcripts db1 @ []
        \<and> segments (committed s) = segments db1 @ []"
      by (simp add: update_recording_tables(1,2))
    then show ?thesis by blast
  next
    case 3
    then show ?thesis .
  qed
qed


lemma on_exception_tables:
  "transcripts (committed (snd (on_exception fault e rid s))) = transcripts (committed s)
   \<and> segments (committed (snd (on_exception fault e rid s))) = segments (committed s)"
  by (simp add: on_exception_def rollback_def commit_def Let_def update_recording_def
        split: option.splits)



lemma enqueue_frame:
  assumes "enqueue now p db = Some (db1, rid)"
  shows "transcripts db1 = transcripts db \<and> segments db1 = segments db
       \<and> (\<exists>r \<in> set (recordings db1). rec_id r = rid \<and> rec_filepath r = p)"
proof (cases "find (\<lambda>r. rec_filepath r = p) (recordings db)")
  case None
  then show ?thesis
    using assms by (auto simp: enqueue_def Let_def)
next
  case (Some existing)
  then have mem: "existing \<in> set (recordings db)" and path: "rec_filepath existing = p"
    by (auto simp: find_Some_iff)
  have db1: "db1 = update_recording (rec_id existing)
                        (\<lambda>r. r\<lparr> rec_status := Pending, rec_error_message := None \<rparr>) db"
    and rid: "rid = rec_id existing"
    using assms Some by (auto simp: enqueue_def split: if_splits)
  let ?e = "existing\<lparr> rec_status := Pending, rec_error_message := None \<rparr>"
  have new: "?e \<in> set (recordings db1)"
    using mem by (force simp: db1 update_recording_def)
  have "rec_id ?e = rid \<and> rec_filepath ?e = p"
    using path rid by simp
  with new have "\<exists>r \<in> set (recordings db1). rec_id r = rid \<and> rec_filepath r = p"
    by (rule bexI [rotated])
  moreover have "transcripts db1 = transcripts db \<and> segments db1 = segments db"
    by (simp add: db1 update_recording_def)
  ultimately show ?thesis by simp
qed

lemma update_recording_mem:
  assumes "r \<in> set (recordings db)" and "rec_id r = rid"
  shows "f r \<in> set (recordings (update_recording rid f db))"
proof -
  have "(\<lambda>r. if rec_id r = rid then f r else r) r \<in> set (recordings (update_recording rid f db))"
    unfolding update_recording_tables set_map using assms(1) by (rule imageI)
  then show ?thesis using assms(2) by simp
qed

lemma update_recording_hit:
  assumes "r \<in> set (recordings (update_recording rid f db))" and "rec_id r = rid"
  shows "\<exists>r0 \<in> set (recordings db). r = f r0"
proof -
  from assms(1) obtain r0 where r0: "r0 \<in> set (recordings db)"
      and r: "r = (if rec_id r0 = rid then f r0 else r0)"
    unfolding update_recording_tables set_map by blast
  show ?thesis
  proof (cases "rec_id r0 = rid")
    case True
    then show ?thesis using r0 r by auto
  next
    case False
    then show ?thesis using r assms(2) by simp
  qed
qed


lemma process_file_block:
  assumes "fault InitDb = None" and "fault LookUp = None"
    and "enqueue t_insert file_path db = Some (db1, rid)"
    and "fault CommitPending = None" and "fault ReadKeyPending = None"
  shows "process_file fault env t_insert t_done file_path db =
     (case try_block fault env t_done file_path rid (open_session db1) of
        Inr s \<Rightarrow> (None, committed s)
      | Inl (e, s) \<Rightarrow>
          (if is_exception e
           then (fst (on_exception fault e rid s), committed (snd (on_exception fault e rid s)))
           else (Some e, committed s)))"
  using assms by (simp add: process_file_def split: sum.splits prod.splits)








text \<open>
  Claim C7, amended. When the recording of the observed path exists and is done,
  nothing changes: the look-up returns early and \<open>process_file\<close> leaves the database as
  it was, and returns normally if \<^verbatim>\<open>init_db\<close> and the look-up did. In any other state the look-up commits the record with its status reset to
  pending and its error message cleared; the key, file name, path, duration, creation
  time and processed time stamp of every record are what they were, and so are the
  transcripts and segments.
\<close>

theorem enqueue_existing_record:
  assumes found: "find (\<lambda>r. rec_filepath r = file_path) (recordings db) = Some existing"
  shows "(rec_status existing = Done \<longrightarrow>
            enqueue t_insert file_path db = None
          \<and> snd (process_file fault env t_insert t_done file_path db) = db
          \<and> (fault InitDb = None \<and> fault LookUp = None \<longrightarrow>
                process_file fault env t_insert t_done file_path db = (None, db)))
    \<and> (rec_status existing \<noteq> Done \<longrightarrow>
         (\<exists>db'. enqueue t_insert file_path db = Some (db', rec_id existing)
           \<and> recordings db' =
               map (\<lambda>r. if rec_id r = rec_id existing
                         then r\<lparr> rec_status := Pending, rec_error_message := None \<rparr> else r)
                 (recordings db)
           \<and> existing\<lparr> rec_status := Pending, rec_error_message := None \<rparr> \<in> set (recordings db')
           \<and> map rec_id (recordings db') = map rec_id (recordings db)
           \<and> map rec_filename (recordings db') = map rec_filename (recordings db)
           \<and> map rec_filepath (recordings db') = map rec_filepath (recordings db)
           \<and> map rec_duration_seconds (recordings db') = map rec_duration_seconds (recordings db)
           \<and> map rec_created_at (recordings db') = map rec_created_at (recordings db)
           \<and> map rec_processed_at (recordings db') = map rec_processed_at (recordings db)
           \<and> transcripts db' = transcripts db
           \<and> segments db' = segments db))"
proof (intro conjI impI)
  assume "rec_status existing = Done"
  then show "enqueue t_insert file_path db = None"
    using found by (simp add: enqueue_def)
  then show "snd (process_file fault env t_insert t_done file_path db) = db"
    by (simp add: process_file_def split: option.splits)
next
  assume "rec_status existing = Done"
    and pre: "fault InitDb = None \<and> fault LookUp = None"
  then have "enqueue t_insert file_path db = None"
    using found by (simp add: enqueue_def)
  then show "process_file fault env t_insert t_done file_path db = (None, db)"
    using pre by (simp add: process_file_def)
next
  assume nd: "rec_status existing \<noteq> Done"
  let ?f = "\<lambda>r. r\<lparr> rec_status := Pending, rec_error_message := None \<rparr>"
  let ?db' = "update_recording (rec_id existing) ?f db"
  have enq: "enqueue t_insert file_path db = Some (?db', rec_id existing)"
    using found nd by (simp add: enqueue_def)
  have mem: "existing \<in> set (recordings db)"
    using found by (auto simp: find_Some_iff)
  have new: "?f existing \<in> set (recordings ?db')"
    using mem by (rule update_recording_mem) simp
  have recs: "recordings ?db' =
      map (\<lambda>r. if rec_id r = rec_id existing then ?f r else r) (recordings db)"
    by (rule update_recording_tables)
  have frame: "map rec_id (recordings ?db') = map rec_id (recordings db)
      \<and> map rec_filename (recordings ?db') = map rec_filename (recordings db)
      \<and> map rec_filepath (recordings ?db') = map rec_filepath (recordings db)
      \<and> map rec_duration_seconds (recordings ?db') = map rec_duration_seconds (recordings db)
      \<and> map rec_created_at (recordings ?db') = map rec_created_at (recordings db)
      \<and> map rec_processed_at (recordings ?db') = map rec_processed_at (recordings db)"
    unfolding recs by (simp add: comp_def if_distrib [of rec_id] if_distrib [of rec_filename]
      if_distrib [of rec_filepath] if_distrib [of rec_duration_seconds]
      if_distrib [of rec_created_at] if_distrib [of rec_processed_at])
  have tabs: "transcripts ?db' = transcripts db \<and> segments ?db' = segments db"
    by (simp add: update_recording_tables(1,2))
  show "\<exists>db'. enqueue t_insert file_path db = Some (db', rec_id existing)
           \<and> recordings db' =
               map (\<lambda>r. if rec_id r = rec_id existing
                         then r\<lparr> rec_status := Pending, rec_error_message := None \<rparr> else r)
                 (recordings db)
           \<and> existing\<lparr> rec_status := Pending, rec_error_message := None \<rparr> \<in> set (recordings db')
           \<and> map rec_id (recordings db') = map rec_id (recordings db)
           \<and> map rec_filename (recordings db') = map rec_filename (recordings db)
           \<and> map rec_filepath (recordings db') = map rec_filepath (recordings db)
           \<and> map rec_duration_seconds (recordings db') = map rec_duration_seconds (recordings db)
           \<and> map rec_created_at (recordings db') = map rec_created_at (recordings db)
           \<and> map rec_processed_at (recordings db') = map rec_processed_at (recordings db)
           \<and> transcripts db' = transcripts db
           \<and> segments db' = segments db"
    using enq recs new frame tabs by blast
qed

text \<open>The failed recording of \<open>sample_failed_db\<close> is seen again at time 8.\<close>

theorem enqueue_existing_record_witness:
  "find (\<lambda>r. rec_filepath r = ''/in/call.wav'') (recordings sample_failed_db)
     = Some failed_recording
   \<and> rec_status failed_recording = Error
   \<and> enqueue 8 ''/in/call.wav'' sample_failed_db =
       Some (sample_failed_db
               \<lparr> recordings :=
                   [failed_recording\<lparr> rec_status := Pending, rec_error_message := None \<rparr>] \<rparr>, 1)"
proof -
  have f: "find (\<lambda>r. rec_filepath r = ''/in/call.wav'') (recordings sample_failed_db)
     = Some failed_recording"
    by (simp add: sample_failed_db_def failed_recording_def)
  have st: "rec_status failed_recording = Error"
    by (simp add: failed_recording_def)
  have e: "enqueue 8 ''/in/call.wav'' sample_failed_db =
       Some (sample_failed_db
               \<lparr> recordings :=
                   [failed_recording\<lparr> rec_status := Pending, rec_error_message := None \<rparr>] \<rparr>, 1)"
    by (simp add: enqueue_def update_recording_def sample_failed_db_def failed_recording_def)
  show ?thesis
    using enqueue_existing_record [OF f, of 8 no_faults "sample_env stereo_audio" 9] f st e
    by blast
qed

text \<open>
  Claim C7 as stated fails on that record: its status becomes pending and its error
  message is cleared, but its processed time stamp 5 is still there.
\<close>

theorem processed_timestamp_kept_counterexample:
  "map rec_status (recordings sample_failed_db) = [Error]
   \<and> map rec_processed_at (recordings sample_failed_db) = [Some 5]
   \<and> map_option (\<lambda>(db', rid). (map rec_status (recordings db'),
                                 map rec_error_message (recordings db'),
                                 map rec_processed_at (recordings db')))
        (enqueue 8 ''/in/call.wav'' sample_failed_db)
       = Some ([Pending], [None], [Some 5])"
  by (simp add: enqueue_def update_recording_def sample_failed_db_def failed_recording_def)


lemma foldl_delete_transcript:
  "recordings (foldl delete_transcript db ts) = recordings db
   \<and> transcripts (foldl delete_transcript db ts)
       = filter (\<lambda>t'. tr_id t' \<notin> tr_id ` set ts) (transcripts db)
   \<and> segments (foldl delete_transcript db ts)
       = filter (\<lambda>s. seg_transcript_id s \<notin> tr_id ` set ts) (segments db)"
proof (induction ts arbitrary: db)
  case Nil
  then show ?case by simp
next
  case (Cons t ts)
  have "recordings (delete_transcript db t) = recordings db"
    "transcripts (delete_transcript db t) = filter (\<lambda>t'. tr_id t' \<noteq> tr_id t) (transcripts db)"
    "segments (delete_transcript db t) = filter (\<lambda>s. seg_transcript_id s \<noteq> tr_id t) (segments db)"
    by (simp_all add: delete_transcript_def)
  then show ?case
    by (simp add: Cons.IH conj_commute cong: filter_cong)
qed


lemma process_file_appends:
  "\<exists>ts ss. transcripts (snd (process_file fault env t_insert t_done file_path db))
              = transcripts db @ ts
         \<and> segments (snd (process_file fault env t_insert t_done file_path db))
              = segments db @ ss"
proof -
  let ?out = "process_file fault env t_insert t_done file_path db"
  have same: "\<exists>ts ss. transcripts (snd ?out) = transcripts db @ ts
         \<and> segments (snd ?out) = segments db @ ss"
    if "transcripts (snd ?out) = transcripts db \<and> segments (snd ?out) = segments db"
  proof -
    from that have "transcripts (snd ?out) = transcripts db @ []
        \<and> segments (snd ?out) = segments db @ []"
      by simp
    then show ?thesis by blast
  qed
  show ?thesis
  proof (cases "fault InitDb = None \<and> fault LookUp = None")
    case False
    then have "snd ?out = db"
      by (auto simp: process_file_def split: option.splits)
    then show ?thesis by (intro same) simp
  next
    case pre: True
    show ?thesis
    proof (cases "enqueue t_insert file_path db")
      case None
      then have "snd ?out = db"
        using pre by (simp add: process_file_def)
      then show ?thesis by (intro same) simp
    next
      case (Some a)
      obtain db1 rid where a: "a = (db1, rid)" by (cases a)
      note enq = Some [unfolded a]
      note frame = enqueue_frame [OF enq]
      show ?thesis
      proof (cases "fault CommitPending = None \<and> fault ReadKeyPending = None")
        case False
        then have "snd ?out = db \<or> snd ?out = db1"
          using pre enq by (auto simp: process_file_def split: option.splits)
        then have "transcripts (snd ?out) = transcripts db
            \<and> segments (snd ?out) = segments db"
          using frame by auto
        then show ?thesis by (rule same)
      next
        case True
        note block = process_file_block [of fault t_insert file_path db db1 rid env t_done]
        show ?thesis
        proof (cases "try_block fault env t_done file_path rid (open_session db1)")
          case (Inr s)
          then have out: "snd ?out = committed s"
            using block pre enq True by simp
          from try_block_appends [of fault env t_done file_path rid db1 _ s] Inr
          obtain ts ss where "transcripts (committed s) = transcripts db1 @ ts"
            "segments (committed s) = segments db1 @ ss"
            by auto
          then show ?thesis
            unfolding out using frame by simp
        next
          case (Inl b)
          obtain e s where b: "b = (e, s)" by (cases b)
          have out: "transcripts (snd ?out) = transcripts (committed s)
              \<and> segments (snd ?out) = segments (committed s)"
            using block pre enq True Inl b by (simp add: on_exception_tables)
          from try_block_appends [of fault env t_done file_path rid db1 e s] Inl b
          obtain ts ss where "transcripts (committed s) = transcripts db1 @ ts"
            "segments (committed s) = segments db1 @ ss"
            by auto
          then show ?thesis
            using out frame by simp
        qed
      qed
    qed
  qed
qed

lemma reprocess_reset_effect:
  assumes "reprocess_reset rid db = Some db1"
  shows "(\<forall>t \<in> set (transcripts db1). tr_recording_id t \<noteq> rid)
    \<and> (\<forall>t \<in> set (transcripts db). tr_recording_id t = rid \<longrightarrow>
          (\<forall>s \<in> set (segments db1). seg_transcript_id s \<noteq> tr_id t))
    \<and> (\<forall>r \<in> set (recordings db1). rec_id r = rid \<longrightarrow>
          rec_status r = Pending \<and> rec_error_message r = None \<and> rec_processed_at r = None)"
proof -
  let ?old = "filter (\<lambda>t. tr_recording_id t = rid) (transcripts db)"
  let ?f = "\<lambda>r. r\<lparr> rec_status := Pending, rec_error_message := None, rec_processed_at := None \<rparr>"
  have db1: "db1 = update_recording rid ?f (foldl delete_transcript db ?old)"
    using assms by (simp add: reprocess_reset_def Let_def split: option.splits)
  have tr: "transcripts db1 = filter (\<lambda>t'. tr_id t' \<notin> tr_id ` set ?old) (transcripts db)"
    and sg: "segments db1 = filter (\<lambda>s. seg_transcript_id s \<notin> tr_id ` set ?old) (segments db)"
    unfolding db1 by (simp_all add: update_recording_tables(1,2) foldl_delete_transcript)
  have a: "\<forall>t \<in> set (transcripts db1). tr_recording_id t \<noteq> rid"
    unfolding tr by auto
  have b: "\<forall>t \<in> set (transcripts db). tr_recording_id t = rid \<longrightarrow>
          (\<forall>s \<in> set (segments db1). seg_transcript_id s \<noteq> tr_id t)"
    unfolding sg by auto
  have c: "\<forall>r \<in> set (recordings db1). rec_id r = rid \<longrightarrow>
          rec_status r = Pending \<and> rec_error_message r = None \<and> rec_processed_at r = None"
  proof (intro ballI impI)
    fix r assume "r \<in> set (recordings db1)" and "rec_id r = rid"
    then obtain r' where "r = ?f r'"
      unfolding db1 using update_recording_hit by blast
    then show "rec_status r = Pending \<and> rec_error_message r = None \<and> rec_processed_at r = None"
      by simp
  qed
  from a b c show ?thesis by blast
qed

text \<open>
  Claim C2, amended. \<open>process_file\<close> deletes nothing: the transcripts and segments
  persisted before it are all still persisted after it, in their places, with whatever
  the run wrote behind them. The rows of a recording are deleted by the reprocess entry
  point: after its reset no transcript of the recording and no segment of such a
  transcript is left, the recording is pending with no error message and no processed
  time stamp, and only then is the file handed to \<open>process_file\<close>.
\<close>

theorem reprocess_deletes_process_file_keeps:
  "(\<exists>ts ss. transcripts (snd (process_file fault env t_insert t_done file_path db)) = transcripts db @ ts
         \<and> segments (snd (process_file fault env t_insert t_done file_path db)) = segments db @ ss)
   \<and> (\<forall>db1. reprocess_reset rid db = Some db1 \<longrightarrow>
         (\<forall>t \<in> set (transcripts db1). tr_recording_id t \<noteq> rid)
       \<and> (\<forall>t \<in> set (transcripts db). tr_recording_id t = rid \<longrightarrow>
            (\<forall>s \<in> set (segments db1). seg_transcript_id s \<noteq> tr_id t))
       \<and> (\<forall>r \<in> set (recordings db1). rec_id r = rid \<longrightarrow>
            rec_status r = Pending \<and> rec_error_message r = None \<and> rec_processed_at r = None))
   \<and> (\<forall>db2. reprocess_recording fault env t_insert t_done rid db = Some db2 \<longrightarrow>
         (\<exists>r db1. r \<in> set (recordings db) \<and> rec_id r = rid
            \<and> reprocess_reset rid db = Some db1
            \<and> db2 = snd (process_file fault env t_insert t_done (rec_filepath r) db1)))"
proof (intro conjI allI impI)
  show "\<exists>ts ss. transcripts (snd (process_file fault env t_insert t_done file_path db)) = transcripts db @ ts
         \<and> segments (snd (process_file fault env t_insert t_done file_path db)) = segments db @ ss"
    by (rule process_file_appends)
next
  fix db1 assume r: "reprocess_reset rid db = Some db1"
  note eff = reprocess_reset_effect [OF r]
  show "\<forall>t \<in> set (transcripts db1). tr_recording_id t \<noteq> rid"
    using eff by blast
  show "\<forall>t \<in> set (transcripts db). tr_recording_id t = rid \<longrightarrow>
            (\<forall>s \<in> set (segments db1). seg_transcript_id s \<noteq> tr_id t)"
    using eff by blast
  show "\<forall>r \<in> set (recordings db1). rec_id r = rid \<longrightarrow>
            rec_status r = Pending \<and> rec_error_message r = None \<and> rec_processed_at r = None"
    using eff by blast
next
  fix db2 assume run: "reprocess_recording fault env t_insert t_done rid db = Some db2"
  then obtain r where f: "find (\<lambda>r. rec_id r = rid) (recordings db) = Some r"
    by (cases "find (\<lambda>r. rec_id r = rid) (recordings db)")
       (simp_all add: reprocess_recording_def)
  then have r: "r \<in> set (recordings db) \<and> rec_id r = rid"
    by (auto simp: find_Some_iff)
  from run f obtain db1 where "reprocess_reset rid db = Some db1"
    and "db2 = snd (process_file fault env t_insert t_done (rec_filepath r) db1)"
    by (cases "reprocess_reset rid db") (simp_all add: reprocess_recording_def)
  with r show "\<exists>r db1. r \<in> set (recordings db) \<and> rec_id r = rid
            \<and> reprocess_reset rid db = Some db1
            \<and> db2 = snd (process_file fault env t_insert t_done (rec_filepath r) db1)"
    by blast
qed

text \<open>Reprocessing recording 1 of \<open>sample_failed_db\<close> replaces its transcript.\<close>

theorem reprocess_deletes_process_file_keeps_witness:
  "map tr_full_text (transcripts sample_failed_db) = [Some ''[Agent] halo'']
   \<and> reprocess_reset 1 sample_failed_db =
       Some \<lparr> recordings = [failed_recording\<lparr> rec_status := Pending,
                  rec_error_message := None, rec_processed_at := None \<rparr>],
              transcripts = [], segments = [] \<rparr>
   \<and> map_option (\<lambda>db. (map rec_status (recordings db), map tr_full_text (transcripts db),
                        map seg_text (segments db)))
        (reprocess_recording no_faults (sample_env stereo_audio) 8 9 1 sample_failed_db)
       = Some ([Done],
               [Some (''[Agent] dzien dobry'' @ [CHR 0x0A] @ ''[Customer] tak''
                      @ [CHR 0x0A] @ ''[Agent] rabat'')],
               [''dzien dobry'', ''tak'', ''rabat''])"
proof -
  have a: "map tr_full_text (transcripts sample_failed_db) = [Some ''[Agent] halo'']"
    by (simp add: sample_failed_db_def)
  have b: "reprocess_reset 1 sample_failed_db =
       Some \<lparr> recordings = [failed_recording\<lparr> rec_status := Pending,
                  rec_error_message := None, rec_processed_at := None \<rparr>],
              transcripts = [], segments = [] \<rparr>"
    by (simp add: reprocess_reset_def sample_failed_db_def failed_recording_def
          delete_transcript_def update_recording_def)
  have c: "map_option (\<lambda>db. (map rec_status (recordings db), map tr_full_text (transcripts db),
                        map seg_text (segments db)))
        (reprocess_recording no_faults (sample_env stereo_audio) 8 9 1 sample_failed_db)
       = Some ([Done],
               [Some (''[Agent] dzien dobry'' @ [CHR 0x0A] @ ''[Customer] tak''
                      @ [CHR 0x0A] @ ''[Agent] rabat'')],
               [''dzien dobry'', ''tak'', ''rabat''])"
    by code_simp
  show ?thesis
    using reprocess_deletes_process_file_keeps
      [of no_faults "sample_env stereo_audio" 8 9 "''/in/call.wav''" sample_failed_db 1] a b c
    by blast
qed

text \<open>
  Claim C2 as stated fails on the same database: \<open>process_file\<close> takes the recording
  from error through pending and processing to done, and the transcript and the segment
  persisted before are still there beside the new ones.
\<close>

theorem prior_rows_survive_counterexample:
  "map tr_id (transcripts sample_failed_db) = [1]
   \<and> map seg_transcript_id (segments sample_failed_db) = [1]
   \<and> map rec_status (recordings
        (snd (process_file no_faults (sample_env stereo_audio) 8 9 ''/in/call.wav''
               sample_failed_db)))
       = [Done]
   \<and> map tr_full_text (transcripts
        (snd (process_file no_faults (sample_env stereo_audio) 8 9 ''/in/call.wav''
               sample_failed_db)))
       = [Some ''[Agent] halo'',
          Some (''[Agent] dzien dobry'' @ [CHR 0x0A] @ ''[Customer] tak''
                @ [CHR 0x0A] @ ''[Agent] rabat'')]
   \<and> map seg_transcript_id (segments
        (snd (process_file no_faults (sample_env stereo_audio) 8 9 ''/in/call.wav''
               sample_failed_db)))
       = [1, 2, 2, 2]"
  by code_simp


section \<open>Properties of the role swap\<close>

















end
